theory Spec2Isabelle
  imports Main "HOL-Library.Sublist"
begin

section \<open>Template registry of CLI-Dev-Pattern.py\<close>

text \<open>
  The generator \<^verbatim>\<open>CLI-Dev-Pattern.py\<close> has two parts: \<^verbatim>\<open>get_templates\<close>, which maps an
  architecture level to a dictionary from relative paths to file contents, and
  \<^verbatim>\<open>generar_estructura\<close>, which writes that dictionary below a destination directory.

  The long template bodies are static text: each \<^verbatim>\<open>_tpl_*()\<close> function consists of a
  single \<^verbatim>\<open>return\<close> of a string literal, and levels 1 and 2 assign three inline
  literals. A body is represented by its name; the short literals (package docstrings and
  the empty string) are written out as the UTF-8 bytes that \<^verbatim>\<open>write_text\<close> stores.
\<close>

datatype plantilla =
    Inline_proyecto | Inline_backend | Inline_frontend
  | Tpl_entidad | Tpl_value_object | Tpl_eventos | Tpl_excepciones
  | Tpl_repositorio_abc | Tpl_dto | Tpl_servicio | Tpl_repositorio_sql
  | Tpl_conexion | Tpl_servicio_externo | Tpl_logger | Tpl_layout | Tpl_vista
  | Tpl_backend | Tpl_bootstrap | Tpl_config | Tpl_requirements | Tpl_env
  | Tpl_gitignore | Tpl_conftest | Tpl_test_domain | Tpl_test_application
  | Tpl_test_infra | Tpl_migraciones | Tpl_seed | Tpl_readme | Tpl_arquitectura
  | Tpl_viewmodel_base | Tpl_viewmodel | Tpl_ui_model | Tpl_validators
  | Tpl_comando_base | Tpl_comandos | Tpl_test_viewmodel | Tpl_guia_estilo

datatype contenido = Texto string | Cuerpo plantilla

definition comillas :: string where
  "comillas = [CHR 0x22, CHR 0x22, CHR 0x22]"

definition raya :: string where
  \<comment> \<open>the em dash U+2014 in UTF-8\<close>
  "raya = [CHR 0xE2, CHR 0x80, CHR 0x94]"

definition doc_domain :: string where
  "doc_domain = comillas @ ''Capa de Dominio '' @ raya @ '' Reglas de negocio puras.''
     @ comillas @ [CHR 0x0A]"

definition doc_application :: string where
  "doc_application = comillas @ ''Capa de Aplicaci'' @ [CHR 0xC3, CHR 0xB3] @ ''n '' @ raya
     @ '' Casos de uso.'' @ comillas @ [CHR 0x0A]"

definition doc_infrastructure :: string where
  "doc_infrastructure = comillas @ ''Capa de Infraestructura '' @ raya
     @ '' Implementaciones t'' @ [CHR 0xC3, CHR 0xA9] @ ''cnicas.'' @ comillas @ [CHR 0x0A]"

definition doc_user_interface :: string where
  "doc_user_interface = comillas @ ''Capa de Interfaz de Usuario.'' @ comillas @ [CHR 0x0A]"

definition doc_presentation :: string where
  "doc_presentation = comillas @ ''Capa de Presentaci'' @ [CHR 0xC3, CHR 0xB3] @ ''n '' @ raya
     @ '' MVVM.'' @ comillas @ [CHR 0x0A]"

subsection \<open>Insertion-ordered dictionaries\<close>

text \<open>
  A Python \<^verbatim>\<open>dict\<close> keeps insertion order; \<^verbatim>\<open>d[k] = v\<close> replaces the value in place when
  the key is present and appends the pair otherwise.
\<close>

type_synonym dict = "(string \<times> contenido) list"

fun dict_set :: "dict \<Rightarrow> string \<Rightarrow> contenido \<Rightarrow> dict" where
  "dict_set [] k v = [(k, v)]"
| "dict_set ((k', v') # d) k v =
     (if k' = k then (k', v) # d else (k', v') # dict_set d k v)"

text \<open>A run of consecutive assignments \<^verbatim>\<open>templates[k] = v\<close>, in program order.\<close>

fun asignar :: "dict \<Rightarrow> (string \<times> contenido) list \<Rightarrow> dict" where
  "asignar d [] = d"
| "asignar d ((k, v) # kvs) = asignar (dict_set d k v) kvs"

definition items :: "dict \<Rightarrow> (string \<times> contenido) list" where
  "items d = d"

definition rutas :: "dict \<Rightarrow> string list" where
  "rutas d = map fst d"

subsection \<open>The assignment blocks of \<^verbatim>\<open>get_templates\<close>\<close>

definition bloque_raiz :: "(string \<times> contenido) list" where
  "bloque_raiz =
    [(''backend.py'', Cuerpo Tpl_backend),
     (''bootstrap.py'', Cuerpo Tpl_bootstrap)]"

definition bloque_config :: "(string \<times> contenido) list" where
  "bloque_config =
    [(''config.py'', Cuerpo Tpl_config),
     (''requirements.txt'', Cuerpo Tpl_requirements),
     (''.env.example'', Cuerpo Tpl_env),
     (''.gitignore'', Cuerpo Tpl_gitignore)]"

definition bloque_domain :: "(string \<times> contenido) list" where
  "bloque_domain =
    [(''Domain/__init__.py'', Texto doc_domain),
     (''Domain/entidades/__init__.py'', Texto ''''),
     (''Domain/entidades/entidad.py'', Cuerpo Tpl_entidad),
     (''Domain/value_objects/__init__.py'', Texto ''''),
     (''Domain/value_objects/nombre.py'', Cuerpo Tpl_value_object),
     (''Domain/eventos/__init__.py'', Texto ''''),
     (''Domain/eventos/eventos_entidad.py'', Cuerpo Tpl_eventos),
     (''Domain/excepciones/__init__.py'', Texto ''''),
     (''Domain/excepciones/excepciones_dominio.py'', Cuerpo Tpl_excepciones)]"

definition bloque_application :: "(string \<times> contenido) list" where
  "bloque_application =
    [(''Application/__init__.py'', Texto doc_application),
     (''Application/servicios/__init__.py'', Texto ''''),
     (''Application/servicios/servicio_entidad.py'', Cuerpo Tpl_servicio),
     (''Application/dto/__init__.py'', Texto ''''),
     (''Application/dto/entidad_dto.py'', Cuerpo Tpl_dto),
     (''Application/interfaces/__init__.py'', Texto ''''),
     (''Application/interfaces/repositorio_entidad.py'', Cuerpo Tpl_repositorio_abc)]"

definition bloque_infrastructure :: "(string \<times> contenido) list" where
  "bloque_infrastructure =
    [(''Infrastructure/__init__.py'', Texto doc_infrastructure),
     (''Infrastructure/persistencia/__init__.py'', Texto ''''),
     (''Infrastructure/persistencia/base_datos/__init__.py'', Texto ''''),
     (''Infrastructure/persistencia/base_datos/conexion.py'', Cuerpo Tpl_conexion),
     (''Infrastructure/persistencia/repositorios/__init__.py'', Texto ''''),
     (''Infrastructure/persistencia/repositorios/repositorio_entidad_sql.py'',
        Cuerpo Tpl_repositorio_sql),
     (''Infrastructure/servicios_externos/__init__.py'', Texto ''''),
     (''Infrastructure/servicios_externos/servicio_externo.py'', Cuerpo Tpl_servicio_externo),
     (''Infrastructure/logging/__init__.py'', Texto ''''),
     (''Infrastructure/logging/logger_config.py'', Cuerpo Tpl_logger)]"

definition bloque_user_interface :: "(string \<times> contenido) list" where
  "bloque_user_interface =
    [(''User_Interface/__init__.py'', Texto doc_user_interface),
     (''User_Interface/layout.py'', Cuerpo Tpl_layout),
     (''User_Interface/vistas/__init__.py'', Texto ''''),
     (''User_Interface/vistas/vista_principal.py'', Cuerpo Tpl_vista)]"

definition bloque_tests :: "(string \<times> contenido) list" where
  "bloque_tests =
    [(''Tests/__init__.py'', Texto ''''),
     (''Tests/conftest.py'', Cuerpo Tpl_conftest),
     (''Tests/test_domain/__init__.py'', Texto ''''),
     (''Tests/test_domain/test_entidad.py'', Cuerpo Tpl_test_domain),
     (''Tests/test_application/__init__.py'', Texto ''''),
     (''Tests/test_application/test_servicio_entidad.py'', Cuerpo Tpl_test_application),
     (''Tests/test_infrastructure/__init__.py'', Texto ''''),
     (''Tests/test_infrastructure/test_repositorio.py'', Cuerpo Tpl_test_infra)]"

definition bloque_scripts :: "(string \<times> contenido) list" where
  "bloque_scripts =
    [(''Scripts/__init__.py'', Texto ''''),
     (''Scripts/migraciones.py'', Cuerpo Tpl_migraciones),
     (''Scripts/seed_data.py'', Cuerpo Tpl_seed)]"

definition bloque_docs :: "(string \<times> contenido) list" where
  "bloque_docs =
    [(''Docs/README.md'', Cuerpo Tpl_readme),
     (''Docs/arquitectura.md'', Cuerpo Tpl_arquitectura)]"

definition bloque_presentation :: "(string \<times> contenido) list" where
  "bloque_presentation =
    [(''Presentation/__init__.py'', Texto doc_presentation),
     (''Presentation/viewmodels/__init__.py'', Texto ''''),
     (''Presentation/viewmodels/viewmodel_base.py'', Cuerpo Tpl_viewmodel_base),
     (''Presentation/viewmodels/entidad_viewmodel.py'', Cuerpo Tpl_viewmodel),
     (''Presentation/models/__init__.py'', Texto ''''),
     (''Presentation/models/ui_entidad.py'', Cuerpo Tpl_ui_model),
     (''Presentation/models/validators.py'', Cuerpo Tpl_validators),
     (''Presentation/commands/__init__.py'', Texto ''''),
     (''Presentation/commands/comando_base.py'', Cuerpo Tpl_comando_base),
     (''Presentation/commands/comandos_entidad.py'', Cuerpo Tpl_comandos),
     (''Tests/test_presentation/__init__.py'', Texto ''''),
     (''Tests/test_presentation/test_entidad_viewmodel.py'', Cuerpo Tpl_test_viewmodel),
     (''Docs/guia_estilo.md'', Cuerpo Tpl_guia_estilo)]"

subsection \<open>\<^verbatim>\<open>get_templates\<close>\<close>

text \<open>
  The source is one \<^verbatim>\<open>if nivel == 1 / elif nivel == 2 / elif nivel >= 3\<close> chain over an
  initially empty dictionary; inside the third branch the blocks guarded by
  \<^verbatim>\<open>if nivel >= 4\<close> and \<^verbatim>\<open>if nivel >= 5\<close> are interleaved with the unguarded ones in the
  order below. Python integers are unbounded, so the level is an \<^typ>\<open>int\<close>.
\<close>

definition get_templates :: "int \<Rightarrow> dict" where
  "get_templates nivel =
    (let templates = [] in
     if nivel = 1 then
       asignar templates [(''proyecto.py'', Cuerpo Inline_proyecto)]
     else if nivel = 2 then
       asignar templates
         [(''backend.py'', Cuerpo Inline_backend),
          (''frontend.py'', Cuerpo Inline_frontend)]
     else if nivel \<ge> 3 then
       (let templates = asignar templates bloque_raiz;
            templates = (if nivel \<ge> 4 then asignar templates bloque_config else templates);
            templates = asignar templates bloque_domain;
            templates = asignar templates bloque_application;
            templates = asignar templates bloque_infrastructure;
            templates = asignar templates bloque_user_interface;
            templates = (if nivel \<ge> 4
                         then asignar (asignar (asignar templates bloque_tests) bloque_scripts)
                                bloque_docs
                         else templates);
            templates = (if nivel \<ge> 5 then asignar templates bloque_presentation
                         else templates)
        in templates)
     else templates)"

section \<open>The filesystem as \<^verbatim>\<open>pathlib\<close> sees it\<close>

text \<open>
  A path is the list of its components below the filesystem root (POSIX flavour); the
  root itself is the empty list. A node is a directory or a regular file with its
  content. A set of write-protected directories stands for what makes the operating
  system refuse a creation with \<^verbatim>\<open>PermissionError\<close>.
\<close>

type_synonym path = "string list"

datatype nodo = Directorio | Archivo contenido

record filesystem =
  nodos :: "path \<Rightarrow> nodo option"
  solo_lectura :: "path set"

datatype io_error =
    FileNotFoundError | FileExistsError | NotADirectoryError
  | IsADirectoryError | PermissionError

text \<open>
  Every operation returns the exception it raised, if any, together with the filesystem
  it leaves behind: effects that happened before a raise stay.
\<close>

type_synonym 'a resultado = "io_error option \<times> 'a"

fun partir :: "string \<Rightarrow> string list" where
  "partir [] = [[]]"
| "partir (c # cs) =
     (if c = CHR ''/'' then [] # partir cs
      else (case partir cs of [] \<Rightarrow> [[c]] | x # xs \<Rightarrow> (c # x) # xs))"

definition componentes :: "string \<Rightarrow> path" where
  \<comment> \<open>\<^verbatim>\<open>pathlib\<close> drops empty and \<^verbatim>\<open>.\<close> components\<close>
  "componentes s = filter (\<lambda>x. x \<noteq> [] \<and> x \<noteq> ''.'') (partir s)"

definition unir :: "path \<Rightarrow> string \<Rightarrow> path" where
  \<comment> \<open>\<^verbatim>\<open>ruta / ruta_relativa\<close>: an absolute right operand replaces the left one\<close>
  "unir ruta ruta_relativa =
     (case ruta_relativa of
        [] \<Rightarrow> ruta
      | c # _ \<Rightarrow> if c = CHR ''/'' then componentes ruta_relativa
                 else ruta @ componentes ruta_relativa)"

definition parent :: "path \<Rightarrow> path" where
  "parent p = butlast p"

definition exists :: "filesystem \<Rightarrow> path \<Rightarrow> bool" where
  "exists fs p = (nodos fs p \<noteq> None)"

definition is_dir :: "filesystem \<Rightarrow> path \<Rightarrow> bool" where
  "is_dir fs p = (nodos fs p = Some Directorio)"

definition os_mkdir :: "path \<Rightarrow> filesystem \<Rightarrow> filesystem resultado" where
  "os_mkdir p fs =
     (if nodos fs p \<noteq> None then (Some FileExistsError, fs)
      else case nodos fs (parent p) of
             None \<Rightarrow> (Some FileNotFoundError, fs)
           | Some (Archivo _) \<Rightarrow> (Some NotADirectoryError, fs)
           | Some Directorio \<Rightarrow>
               if parent p \<in> solo_lectura fs then (Some PermissionError, fs)
               else (None, fs\<lparr>nodos := (nodos fs)(p \<mapsto> Directorio)\<rparr>))"

text \<open>
  \<^verbatim>\<open>Path.mkdir(parents, exist_ok)\<close> as \<^verbatim>\<open>pathlib\<close> implements it: try \<^verbatim>\<open>os.mkdir\<close>;
  on \<^verbatim>\<open>FileNotFoundError\<close> create the parent with \<^verbatim>\<open>parents=True, exist_ok=True\<close> and
  retry without \<^verbatim>\<open>parents\<close>; on any other \<^verbatim>\<open>OSError\<close> re-raise unless \<^verbatim>\<open>exist_ok\<close> holds and
  the path is a directory.
\<close>

function mkdir :: "path \<Rightarrow> bool \<Rightarrow> bool \<Rightarrow> filesystem \<Rightarrow> filesystem resultado" where
  "mkdir p parents exist_ok fs =
     (case os_mkdir p fs of
        (None, fs') \<Rightarrow> (None, fs')
      | (Some e, _) \<Rightarrow>
          if e = FileNotFoundError then
            (if \<not> parents \<or> parent p = p then (Some e, fs)
             else case mkdir (parent p) True True fs of
                    (Some e', fs') \<Rightarrow> (Some e', fs')
                  | (None, fs') \<Rightarrow> mkdir p False exist_ok fs')
          else if \<not> exist_ok \<or> \<not> is_dir fs p then (Some e, fs)
          else (None, fs))"
  by pat_completeness auto
termination
proof (relation "measure (\<lambda>(p, parents, _, _). 2 * length p + (if parents then 1 else 0))")
  show "wf (measure (\<lambda>(p, parents, _, _). 2 * length p + (if parents then 1 else 0)))"
    by simp
next
  fix p :: path and parents exist_ok :: bool and fs :: filesystem
  assume "\<not> (\<not> parents \<or> parent p = p)"
  then have "p \<noteq> []" and parents by (auto simp: parent_def)
  then show "((parent p, True, True, fs), (p, parents, exist_ok, fs))
      \<in> measure (\<lambda>(p, parents, _, _). 2 * length p + (if parents then 1 else 0))"
    by (simp add: parent_def)
next
  fix p :: path and parents exist_ok :: bool and fs fs' :: filesystem
  assume "\<not> (\<not> parents \<or> parent p = p)"
  then show "((p, False, exist_ok, fs'), (p, parents, exist_ok, fs))
      \<in> measure (\<lambda>(p, parents, _, _). 2 * length p + (if parents then 1 else 0))"
    by simp
qed

text \<open>
  \<^verbatim>\<open>Path.write_text\<close> opens the file for writing: it truncates an existing regular file
  and creates a missing one in an existing, writable directory.
\<close>

definition write_text :: "path \<Rightarrow> contenido \<Rightarrow> filesystem \<Rightarrow> filesystem resultado" where
  "write_text p data fs =
     (case nodos fs (parent p) of
        None \<Rightarrow> (Some FileNotFoundError, fs)
      | Some (Archivo _) \<Rightarrow> (Some NotADirectoryError, fs)
      | Some Directorio \<Rightarrow>
          (case nodos fs p of
             Some Directorio \<Rightarrow> (Some IsADirectoryError, fs)
           | Some (Archivo _) \<Rightarrow> (None, fs\<lparr>nodos := (nodos fs)(p \<mapsto> Archivo data)\<rparr>)
           | None \<Rightarrow>
               if parent p \<in> solo_lectura fs then (Some PermissionError, fs)
               else (None, fs\<lparr>nodos := (nodos fs)(p \<mapsto> Archivo data)\<rparr>)))"

section \<open>\<^verbatim>\<open>generar_estructura\<close>\<close>

text \<open>
  What the function prints, without colours: one line per file, then an empty line and
  the totals. The part about skipped files is printed only when \<^verbatim>\<open>omitidos\<close> is not zero.
\<close>

datatype pasos = Pasos_auddits | Pasos_audi | Pasos_bf | Pasos_script

datatype mensaje =
    Msg_creado string
  | Msg_omitido string
  | Msg_linea_vacia
  | Msg_total_creados nat
  | Msg_total_omitidos nat
  | Msg_fin_linea
  | Msg_generando int string
  | Msg_destino path
  | Msg_exito
  | Msg_pasos pasos path
  | Msg_cancelado

record estado =
  disco :: filesystem
  salida :: "mensaje list"
  creados :: nat
  omitidos :: nat

text \<open>The \<^verbatim>\<open>for\<close> loop over \<^verbatim>\<open>templates.items()\<close>; an exception leaves the loop at once.\<close>

fun bucle :: "path \<Rightarrow> (string \<times> contenido) list \<Rightarrow> estado \<Rightarrow> estado resultado" where
  "bucle ruta [] s = (None, s)"
| "bucle ruta ((ruta_relativa, contenido) # resto) s =
     (let archivo = unir ruta ruta_relativa in
      case mkdir (parent archivo) True True (disco s) of
        (Some e, fs1) \<Rightarrow> (Some e, s\<lparr>disco := fs1\<rparr>)
      | (None, fs1) \<Rightarrow>
          if exists fs1 archivo then
            bucle ruta resto
              (s\<lparr>disco := fs1, omitidos := omitidos s + 1,
                 salida := salida s @ [Msg_omitido ruta_relativa]\<rparr>)
          else
            (case write_text archivo contenido fs1 of
               (Some e, fs2) \<Rightarrow> (Some e, s\<lparr>disco := fs2\<rparr>)
             | (None, fs2) \<Rightarrow>
                 bucle ruta resto
                   (s\<lparr>disco := fs2, creados := creados s + 1,
                      salida := salida s @ [Msg_creado ruta_relativa]\<rparr>)))"

definition inicial :: "filesystem \<Rightarrow> estado" where
  "inicial fs = \<lparr>disco = fs, salida = [], creados = 0, omitidos = 0\<rparr>"

definition resumen :: "estado \<Rightarrow> mensaje list" where
  "resumen s =
     [Msg_linea_vacia, Msg_total_creados (creados s)]
     @ (if omitidos s \<noteq> 0 then [Msg_total_omitidos (omitidos s)] else [])
     @ [Msg_fin_linea]"

definition generar_estructura ::
    "int \<Rightarrow> path \<Rightarrow> filesystem \<Rightarrow> (filesystem \<times> mensaje list) resultado" where
  "generar_estructura nivel ruta fs =
     (let templates = get_templates nivel in
      case bucle ruta (items templates) (inicial fs) of
        (Some e, s) \<Rightarrow> (Some e, disco s, salida s)
      | (None, s) \<Rightarrow> (None, disco s, salida s @ resumen s))"

section \<open>\<^verbatim>\<open>main\<close>\<close>

text \<open>
  \<^verbatim>\<open>main\<close> receives the parsed command line: two optional positionals and the flag
  \<^verbatim>\<open>--forzar\<close>. Without both positionals it asks on the console; that dialogue
  (\<^verbatim>\<open>pedir_nivel\<close>, \<^verbatim>\<open>pedir_ruta\<close>, \<^verbatim>\<open>confirmar\<close>) is represented by its outcome, and what
  it prints is left out. \<^verbatim>\<open>Path(...).expanduser().resolve()\<close> is the parameter
  \<open>resolver\<close>. An exception that nothing catches ends the process.
\<close>

record args =
  arg_nivel :: "int option"
  arg_ruta :: "string option"
  forzar :: bool

datatype dialogo = Cancelado | Elegido int path

datatype excepcion = OSError io_error | KeyError

datatype fin = Exit int | Excepcion excepcion

definition NIVELES :: "(int \<times> string) list" where
  "NIVELES =
    [(1, ''Standalone Script''),
     (2, ''Patr'' @ [CHR 0xC3, CHR 0xB3] @ ''n BF (Backend'' @ [CHR 0xE2, CHR 0x80, CHR 0x93] @ ''Frontend)''),
     (3, ''Patr'' @ [CHR 0xC3, CHR 0xB3] @ ''n AUDI''),
     (4, ''Patr'' @ [CHR 0xC3, CHR 0xB3] @ ''n AUDDITS''),
     (5, ''Patr'' @ [CHR 0xC3, CHR 0xB3] @ ''n AUDDITS + MVVM'')]"

definition pasos_siguientes :: "int \<Rightarrow> pasos" where
  "pasos_siguientes nivel =
     (if nivel \<ge> 4 then Pasos_auddits
      else if nivel \<ge> 3 then Pasos_audi
      else if nivel = 2 then Pasos_bf
      else Pasos_script)"

definition elegir :: "(string \<Rightarrow> path) \<Rightarrow> dialogo \<Rightarrow> args \<Rightarrow> (int \<times> path) option" where
  \<comment> \<open>\<^verbatim>\<open>if args.nivel and args.ruta:\<close> tests truthiness: \<^verbatim>\<open>0\<close> and \<^verbatim>\<open>""\<close> count as absent\<close>
  "elegir resolver d a =
     (case (arg_nivel a, arg_ruta a) of
        (Some n, Some r) \<Rightarrow>
          if n \<noteq> 0 \<and> r \<noteq> [] then Some (n, resolver r)
          else (case d of Cancelado \<Rightarrow> None | Elegido n' p \<Rightarrow> Some (n', p))
      | _ \<Rightarrow> (case d of Cancelado \<Rightarrow> None | Elegido n' p \<Rightarrow> Some (n', p)))"

definition main ::
    "(string \<Rightarrow> path) \<Rightarrow> dialogo \<Rightarrow> args \<Rightarrow> filesystem \<Rightarrow> fin \<times> filesystem \<times> mensaje list" where
  "main resolver d a fs =
     (case elegir resolver d a of
        None \<Rightarrow> (Exit 0, fs, [Msg_cancelado])
      | Some (nivel, ruta) \<Rightarrow>
          (case map_of NIVELES nivel of
             None \<Rightarrow> (Excepcion KeyError, fs, [Msg_linea_vacia])
           | Some nombre \<Rightarrow>
               (let cabecera =
                      [Msg_linea_vacia, Msg_generando nivel nombre, Msg_destino ruta,
                       Msg_linea_vacia]
                in case mkdir ruta True True fs of
                     (Some e, fs1) \<Rightarrow> (Excepcion (OSError e), fs1, cabecera)
                   | (None, fs1) \<Rightarrow>
                       (case generar_estructura nivel ruta fs1 of
                          (Some e, fs2, out) \<Rightarrow> (Excepcion (OSError e), fs2, cabecera @ out)
                        | (None, fs2, out) \<Rightarrow>
                            (Exit 0, fs2,
                             cabecera @ out
                             @ [Msg_linea_vacia, Msg_exito, Msg_linea_vacia,
                                Msg_pasos (pasos_siguientes nivel) ruta, Msg_linea_vacia])))))"

section \<open>Auxiliary notions for the statements\<close>

fun es_linea_archivo :: "mensaje \<Rightarrow> bool" where
  "es_linea_archivo (Msg_creado _) = True"
| "es_linea_archivo (Msg_omitido _) = True"
| "es_linea_archivo _ = False"

fun es_creado :: "mensaje \<Rightarrow> bool" where
  "es_creado (Msg_creado _) = True"
| "es_creado _ = False"

fun es_omitido :: "mensaje \<Rightarrow> bool" where
  "es_omitido (Msg_omitido _) = True"
| "es_omitido _ = False"

fun ruta_linea :: "mensaje \<Rightarrow> string" where
  "ruta_linea (Msg_creado r) = r"
| "ruta_linea (Msg_omitido r) = r"
| "ruta_linea _ = []"

text \<open>A filesystem is a tree: whatever exists lies in a directory.\<close>

definition bien_formado :: "filesystem \<Rightarrow> bool" where
  "bien_formado fs \<longleftrightarrow> (\<forall>p. nodos fs p \<noteq> None \<longrightarrow> nodos fs (parent p) = Some Directorio)"

text \<open>The filesystem that holds the directory \<open>p\<close>, its ancestors, and nothing else.\<close>

definition disco_con :: "path \<Rightarrow> filesystem" where
  "disco_con p =
     \<lparr>nodos = (\<lambda>q. if prefix q p then Some Directorio else None), solo_lectura = {}\<rparr>"

text \<open>
  Conditions on a list of entries under which a run into an empty destination cannot
  meet a conflict: every key is a relative path with at least one component, no two keys
  name the same file, and no file is needed as a directory of another one.
\<close>

definition relativa :: "string \<Rightarrow> bool" where
  "relativa k = (case k of [] \<Rightarrow> True | c # _ \<Rightarrow> c \<noteq> CHR ''/'')"

definition destinos :: "(string \<times> contenido) list \<Rightarrow> path list" where
  "destinos its = map (componentes \<circ> fst) its"

definition sin_conflictos :: "(string \<times> contenido) list \<Rightarrow> bool" where
  "sin_conflictos its \<longleftrightarrow>
     list_all (\<lambda>kv. relativa (fst kv)) its \<and>
     list_all (\<lambda>t. t \<noteq> []) (destinos its) \<and>
     distinct (destinos its) \<and>
     list_all (\<lambda>t. list_all (\<lambda>u. \<not> strict_prefix t u) (destinos its)) (destinos its)"

text \<open>
  The state of the filesystem while such a run is under way, \<open>H\<close> being the files written
  so far (relative to \<open>ruta\<close>): below \<open>ruta\<close> there are these files and the directories
  that lead to them, and nothing else.
\<close>

definition inv_fresco :: "path \<Rightarrow> path set \<Rightarrow> filesystem \<Rightarrow> bool" where
  "inv_fresco ruta H fs \<longleftrightarrow>
     bien_formado fs \<and> nodos fs [] = Some Directorio \<and> solo_lectura fs = {} \<and>
     (\<forall>q c. prefix q ruta \<longrightarrow> nodos fs q \<noteq> Some (Archivo c)) \<and>
     (\<forall>q c. nodos fs (ruta @ q) = Some (Archivo c) \<longrightarrow> q \<in> H) \<and>
     (\<forall>q. q \<noteq> [] \<longrightarrow> nodos fs (ruta @ q) = Some Directorio \<longrightarrow> (\<exists>t\<in>H. strict_prefix q t))"

section \<open>Properties of the registry\<close>

lemma dict_set_nueva: "k \<notin> fst ` set d \<Longrightarrow> dict_set d k v = d @ [(k, v)]"
  by (induction d) auto

lemma asignar_nuevas:
  "distinct (map fst (d @ kvs)) \<Longrightarrow> asignar d kvs = d @ kvs"
proof (induction kvs arbitrary: d)
  case Nil
  then show ?case by simp
next
  case (Cons kv kvs)
  obtain k v where kv: "kv = (k, v)" by (cases kv)
  from Cons.prems have nueva: "k \<notin> fst ` set d" by (auto simp: kv)
  from Cons.prems have "distinct (map fst ((d @ [(k, v)]) @ kvs))" by (simp add: kv)
  then have "asignar (d @ [(k, v)]) kvs = (d @ [(k, v)]) @ kvs" by (rule Cons.IH)
  then show ?case by (simp add: kv dict_set_nueva [OF nueva])
qed

lemma claves_distintas:
  "distinct (map fst (bloque_raiz @ bloque_config @ bloque_domain @ bloque_application
     @ bloque_infrastructure @ bloque_user_interface @ bloque_tests @ bloque_scripts
     @ bloque_docs @ bloque_presentation))"
  by code_simp

lemma get_templates_1: "get_templates 1 = [(''proyecto.py'', Cuerpo Inline_proyecto)]"
  by (simp add: get_templates_def)

lemma get_templates_2:
  "get_templates 2 =
     [(''backend.py'', Cuerpo Inline_backend), (''frontend.py'', Cuerpo Inline_frontend)]"
  by (simp add: get_templates_def)

lemma asignar_append: "asignar d (xs @ ys) = asignar (asignar d xs) ys"
  by (induction xs arbitrary: d) auto

lemma asignar_vacio: "distinct (map fst kvs) \<Longrightarrow> asignar [] kvs = kvs"
  using asignar_nuevas [of "[]" kvs] by simp

lemma get_templates_3:
  "get_templates 3 = bloque_raiz @ bloque_domain @ bloque_application
     @ bloque_infrastructure @ bloque_user_interface"
proof -
  have "distinct (map fst (bloque_raiz @ bloque_domain @ bloque_application
     @ bloque_infrastructure @ bloque_user_interface))"
    using claves_distintas by (simp add: disjoint_iff)
  from asignar_vacio [OF this] show ?thesis
    by (simp add: get_templates_def asignar_append)
qed

lemma get_templates_4:
  "get_templates 4 = bloque_raiz @ bloque_config @ bloque_domain @ bloque_application
     @ bloque_infrastructure @ bloque_user_interface @ bloque_tests @ bloque_scripts
     @ bloque_docs"
proof -
  have "distinct (map fst (bloque_raiz @ bloque_config @ bloque_domain @ bloque_application
     @ bloque_infrastructure @ bloque_user_interface @ bloque_tests @ bloque_scripts
     @ bloque_docs))"
    using claves_distintas by (simp add: disjoint_iff)
  from asignar_vacio [OF this] show ?thesis
    by (simp add: get_templates_def asignar_append)
qed

lemma get_templates_5:
  "get_templates 5 = bloque_raiz @ bloque_config @ bloque_domain @ bloque_application
     @ bloque_infrastructure @ bloque_user_interface @ bloque_tests @ bloque_scripts
     @ bloque_docs @ bloque_presentation"
  using asignar_vacio [OF claves_distintas]
  by (simp add: get_templates_def asignar_append)

lemma get_templates_alto: "6 \<le> nivel \<Longrightarrow> get_templates nivel = get_templates 5"
  by (simp add: get_templates_def)

lemma get_templates_bajo: "nivel \<le> 0 \<Longrightarrow> get_templates nivel = []"
  by (simp add: get_templates_def)

lemma get_templates_desde_5: "5 \<le> nivel \<Longrightarrow> get_templates nivel = get_templates 5"
  using get_templates_alto [of nivel] by (cases "nivel = 5") simp_all

lemma nivel_casos:
  fixes nivel :: int
  obtains "nivel \<le> 0" | "nivel = 1" | "nivel = 2" | "nivel = 3" | "nivel = 4" | "5 \<le> nivel"
  by linarith

lemma get_templates_distinct: "distinct (rutas (get_templates nivel))"
proof (cases nivel rule: nivel_casos)
  case 1
  then show ?thesis by (simp add: get_templates_bajo rutas_def)
next
  case 2
  then show ?thesis by (simp add: get_templates_1 rutas_def)
next
  case 3
  then show ?thesis by (simp add: get_templates_2 rutas_def)
next
  case 4
  then show ?thesis
    using claves_distintas by (simp add: get_templates_3 rutas_def disjoint_iff)
next
  case 5
  then show ?thesis
    using claves_distintas by (simp add: get_templates_4 rutas_def disjoint_iff)
next
  case 6
  then have "get_templates nivel = get_templates 5"
    by (rule get_templates_desde_5)
  then show ?thesis
    using claves_distintas by (simp add: get_templates_5 rutas_def)
qed

lemmas bloques =
  bloque_raiz_def bloque_config_def bloque_domain_def bloque_application_def
  bloque_infrastructure_def bloque_user_interface_def bloque_tests_def bloque_scripts_def
  bloque_docs_def bloque_presentation_def

lemma sueltas_fuera_de_5:
  "''proyecto.py'' \<notin> set (rutas (get_templates 5)) \<and>
   ''frontend.py'' \<notin> set (rutas (get_templates 5))"
  by (simp add: get_templates_5 rutas_def bloques)

lemma rutas_3_en_4: "set (rutas (get_templates 3)) \<subseteq> set (rutas (get_templates 4))"
  by (auto simp: get_templates_3 get_templates_4 rutas_def)

lemma rutas_4_en_5: "set (rutas (get_templates 4)) \<subseteq> set (rutas (get_templates 5))"
  by (auto simp: get_templates_4 get_templates_5 rutas_def)

lemma sueltas_fuera:
  assumes "3 \<le> k"
  shows "''proyecto.py'' \<notin> set (rutas (get_templates k))"
    and "''frontend.py'' \<notin> set (rutas (get_templates k))"
proof -
  have "set (rutas (get_templates k)) \<subseteq> set (rutas (get_templates 5))"
  proof (cases k rule: nivel_casos)
    case 4
    then show ?thesis using rutas_3_en_4 rutas_4_en_5 by blast
  next
    case 5
    then show ?thesis using rutas_4_en_5 by blast
  next
    case 6
    then have "get_templates k = get_templates 5" by (rule get_templates_desde_5)
    then show ?thesis by simp
  qed (use assms in simp_all)
  then show "''proyecto.py'' \<notin> set (rutas (get_templates k))"
    and "''frontend.py'' \<notin> set (rutas (get_templates k))"
    using sueltas_fuera_de_5 by blast+
qed

text \<open>
  C1 (as stated): for all levels \<open>k1 < k2\<close> between 1 and 5 the paths of \<open>k1\<close> are among the
  paths of \<open>k2\<close>. Level 1 consists of \<^verbatim>\<open>proyecto.py\<close> alone, which level 2 does not have.
\<close>

theorem nivel_1_no_incluido_en_2:
  "\<not> set (rutas (get_templates 1)) \<subseteq> set (rutas (get_templates 2))"
  by (simp add: get_templates_1 get_templates_2 rutas_def)

text \<open>
  C1 (amended): for levels \<open>1 \<le> k1 < k2\<close> the paths of \<open>k1\<close> are among the paths of \<open>k2\<close>
  exactly when \<open>k1 \<ge> 3\<close>: levels 3, 4 and 5 grow one shared structure, while levels 1 and 2
  are file sets of their own.
\<close>

theorem inclusion_de_niveles:
  assumes "1 \<le> k1" and "k1 < k2"
  shows "set (rutas (get_templates k1)) \<subseteq> set (rutas (get_templates k2)) \<longleftrightarrow> 3 \<le> k1"
proof (cases k1 rule: nivel_casos)
  case 1
  with assms show ?thesis by simp
next
  case 2
  have "''proyecto.py'' \<notin> set (rutas (get_templates k2))"
  proof (cases "k2 = 2")
    case True
    then show ?thesis by (simp add: get_templates_2 rutas_def)
  next
    case False
    with assms 2 have "3 \<le> k2" by simp
    then show ?thesis by (rule sueltas_fuera)
  qed
  with 2 show ?thesis by (simp add: get_templates_1 rutas_def)
next
  case 3
  with assms have "3 \<le> k2" by simp
  then have "''frontend.py'' \<notin> set (rutas (get_templates k2))" by (rule sueltas_fuera)
  with 3 show ?thesis by (simp add: get_templates_2 rutas_def)
next
  case 4
  with assms have "k2 = 4 \<or> 5 \<le> k2" by linarith
  then have "set (rutas (get_templates 3)) \<subseteq> set (rutas (get_templates k2))"
  proof
    assume "k2 = 4"
    then show ?thesis using rutas_3_en_4 by simp
  next
    assume "5 \<le> k2"
    then have "get_templates k2 = get_templates 5" by (rule get_templates_desde_5)
    then show ?thesis using rutas_3_en_4 rutas_4_en_5 by auto
  qed
  with 4 show ?thesis by simp
next
  case 5
  with assms have "5 \<le> k2" by simp
  then have "get_templates k2 = get_templates 5" by (rule get_templates_desde_5)
  then have "set (rutas (get_templates 4)) \<subseteq> set (rutas (get_templates k2))"
    using rutas_4_en_5 by simp
  with 5 show ?thesis by simp
next
  case 6
  with assms have "5 \<le> k2" by simp
  then have "get_templates k2 = get_templates 5" by (rule get_templates_desde_5)
  moreover from 6 have "get_templates k1 = get_templates 5" by (rule get_templates_desde_5)
  ultimately show ?thesis using 6 by simp
qed

theorem inclusion_de_niveles_witness:
  "set (rutas (get_templates 3)) \<subseteq> set (rutas (get_templates 5)) \<and>
   \<not> set (rutas (get_templates 2)) \<subseteq> set (rutas (get_templates 3))"
  using inclusion_de_niveles [of 3 5] inclusion_de_niveles [of 2 3] by simp

text \<open>
  C5: the dictionary of level 5 is the dictionary of level 4 followed by thirteen new
  entries: ten under \<^verbatim>\<open>Presentation/\<close>, two under \<^verbatim>\<open>Tests/test_presentation/\<close> and
  \<^verbatim>\<open>Docs/guia_estilo.md\<close>. No path occurs twice, so none of them is a path of level 4.
\<close>

theorem nivel_5_extiende_nivel_4:
  "get_templates 5 = get_templates 4 @ bloque_presentation \<and>
   rutas bloque_presentation =
     [''Presentation/__init__.py'',
      ''Presentation/viewmodels/__init__.py'',
      ''Presentation/viewmodels/viewmodel_base.py'',
      ''Presentation/viewmodels/entidad_viewmodel.py'',
      ''Presentation/models/__init__.py'',
      ''Presentation/models/ui_entidad.py'',
      ''Presentation/models/validators.py'',
      ''Presentation/commands/__init__.py'',
      ''Presentation/commands/comando_base.py'',
      ''Presentation/commands/comandos_entidad.py'',
      ''Tests/test_presentation/__init__.py'',
      ''Tests/test_presentation/test_entidad_viewmodel.py'',
      ''Docs/guia_estilo.md''] \<and>
   distinct (rutas (get_templates 5)) \<and>
   set (rutas (get_templates 5)) - set (rutas bloque_presentation)
     = set (rutas (get_templates 4))"
proof -
  have a: "get_templates 5 = get_templates 4 @ bloque_presentation"
    by (simp add: get_templates_4 get_templates_5)
  have d: "distinct (rutas (get_templates 5))"
    by (rule get_templates_distinct)
  from d have "set (rutas (get_templates 4)) \<inter> set (rutas bloque_presentation) = {}"
    by (simp add: a rutas_def)
  then have "set (rutas (get_templates 5)) - set (rutas bloque_presentation)
      = set (rutas (get_templates 4))"
    by (auto simp: a rutas_def)
  with a d show ?thesis by (simp add: rutas_def bloque_presentation_def)
qed

text \<open>
  C6: level 3 contains the entity, the application service, the SQL repository and the
  main view, and no path that starts with \<^verbatim>\<open>Tests/\<close> or with \<^verbatim>\<open>Presentation/\<close>.
\<close>

theorem nivel_3_rutas:
  "''Domain/entidades/entidad.py'' \<in> set (rutas (get_templates 3)) \<and>
   ''Application/servicios/servicio_entidad.py'' \<in> set (rutas (get_templates 3)) \<and>
   ''Infrastructure/persistencia/repositorios/repositorio_entidad_sql.py''
      \<in> set (rutas (get_templates 3)) \<and>
   ''User_Interface/vistas/vista_principal.py'' \<in> set (rutas (get_templates 3)) \<and>
   filter (\<lambda>r. prefix ''Tests/'' r \<or> prefix ''Presentation/'' r) (rutas (get_templates 3)) = []"
  by (simp add: get_templates_3 rutas_def bloques)

text \<open>
  C10: outside the range 1 to 5 the registry still returns: every level from 6 upwards
  gives the dictionary of level 5, every level from 0 downwards the empty dictionary.
\<close>

theorem get_templates_fuera_de_rango:
  "(6 \<le> nivel \<longrightarrow> get_templates nivel = get_templates 5) \<and>
   (nivel \<le> 0 \<longrightarrow> get_templates nivel = [])"
  by (simp add: get_templates_def)

theorem get_templates_fuera_de_rango_witness:
  "get_templates 9 = get_templates 5 \<and> get_templates (- 3) = [] \<and> get_templates 5 \<noteq> []"
  using get_templates_fuera_de_rango [of 9] get_templates_fuera_de_rango [of "- 3"]
  by (simp add: get_templates_5 bloque_raiz_def)

section \<open>Properties of the filesystem operations\<close>

declare mkdir.simps [simp del]

lemma os_mkdir_conserva:
  assumes "os_mkdir p fs = (r, fs')"
  shows "nodos fs \<subseteq>\<^sub>m nodos fs'" and "solo_lectura fs' = solo_lectura fs"
  using assms
  by (auto simp: os_mkdir_def map_le_def split: if_splits option.splits nodo.splits)

lemma os_mkdir_falla: "os_mkdir p fs = (Some e, fs') \<Longrightarrow> fs' = fs"
  by (auto simp: os_mkdir_def split: if_splits option.splits nodo.splits)

lemma os_mkdir_crea: "os_mkdir p fs = (None, fs') \<Longrightarrow> is_dir fs' p"
  by (auto simp: os_mkdir_def is_dir_def split: if_splits option.splits nodo.splits)

lemma mkdir_directo: "os_mkdir p fs = (None, fs0) \<Longrightarrow> mkdir p a b fs = (None, fs0)"
  by (subst mkdir.simps) simp

lemma mkdir_otro_error:
  "os_mkdir p fs = (Some e, fs0) \<Longrightarrow> e \<noteq> FileNotFoundError \<Longrightarrow>
     mkdir p a b fs = (if \<not> b \<or> \<not> is_dir fs p then (Some e, fs) else (None, fs))"
  by (subst mkdir.simps) simp

lemma mkdir_sin_padre:
  "os_mkdir p fs = (Some FileNotFoundError, fs0) \<Longrightarrow>
     mkdir p a b fs =
       (if \<not> a \<or> parent p = p then (Some FileNotFoundError, fs)
        else case mkdir (parent p) True True fs of
               (Some e', fs') \<Rightarrow> (Some e', fs')
             | (None, fs') \<Rightarrow> mkdir p False b fs')"
  by (subst mkdir.simps) simp

lemma mkdir_conserva:
  "mkdir p parents exist_ok fs = (r, fs') \<Longrightarrow>
     nodos fs \<subseteq>\<^sub>m nodos fs' \<and> solo_lectura fs' = solo_lectura fs"
proof (induction p parents exist_ok fs arbitrary: r fs' rule: mkdir.induct)
  case (1 p parents exist_ok fs)
  obtain r0 fs0 where os: "os_mkdir p fs = (r0, fs0)" by (cases "os_mkdir p fs")
  show ?case
  proof (cases r0)
    case None
    with os "1.prems" have "fs' = fs0" by (simp add: mkdir_directo)
    with os show ?thesis using os_mkdir_conserva by blast
  next
    case (Some e)
    show ?thesis
    proof (cases "e = FileNotFoundError")
      case False
      with os Some "1.prems" have "fs' = fs"
        by (auto simp: mkdir_otro_error split: if_splits)
      then show ?thesis by simp
    next
      case nf: True
      show ?thesis
      proof (cases "\<not> parents \<or> parent p = p")
        case True
        with os Some nf "1.prems" have "fs' = fs" by (auto simp: mkdir_sin_padre)
        then show ?thesis by simp
      next
        case False
        obtain r1 fs1 where m1: "mkdir (parent p) True True fs = (r1, fs1)"
          by (cases "mkdir (parent p) True True fs")
        have c1: "nodos fs \<subseteq>\<^sub>m nodos fs1 \<and> solo_lectura fs1 = solo_lectura fs"
          using "1.IH"(1) [OF os [symmetric] Some nf False m1] .
        show ?thesis
        proof (cases r1)
          case (Some e1)
          with os \<open>r0 = Some e\<close> nf False m1 "1.prems" have "fs' = fs1"
            by (simp add: mkdir_sin_padre)
          with c1 show ?thesis by simp
        next
          case None
          with os \<open>r0 = Some e\<close> nf False m1 "1.prems"
          have m2: "mkdir p False exist_ok fs1 = (r, fs')"
            by (simp add: mkdir_sin_padre)
          have "nodos fs1 \<subseteq>\<^sub>m nodos fs' \<and> solo_lectura fs' = solo_lectura fs1"
            using "1.IH"(2) [OF os [symmetric] \<open>r0 = Some e\<close> nf False m1 [symmetric] None m2] .
          with c1 show ?thesis by (auto intro: map_le_trans)
        qed
      qed
    qed
  qed
qed

lemma mkdir_simple:
  "mkdir p False b fs =
     (case os_mkdir p fs of
        (None, fs') \<Rightarrow> (None, fs')
      | (Some e, _) \<Rightarrow>
          if e \<noteq> FileNotFoundError \<and> b \<and> is_dir fs p then (None, fs) else (Some e, fs))"
  by (subst mkdir.simps) (auto split: prod.splits option.splits)

lemma mkdir_raiz:
  "mkdir [] True True fs =
     (case os_mkdir [] fs of
        (None, fs') \<Rightarrow> (None, fs')
      | (Some e, _) \<Rightarrow>
          if e \<noteq> FileNotFoundError \<and> is_dir fs [] then (None, fs) else (Some e, fs))"
  by (subst mkdir.simps) (auto simp: parent_def split: prod.splits option.splits)

lemma mkdir_anidado:
  "mkdir (xs @ [x]) True True fs =
     (case os_mkdir (xs @ [x]) fs of
        (None, fs') \<Rightarrow> (None, fs')
      | (Some e, _) \<Rightarrow>
          if e = FileNotFoundError then
            (case mkdir xs True True fs of
               (Some e', fs') \<Rightarrow> (Some e', fs')
             | (None, fs') \<Rightarrow> mkdir (xs @ [x]) False True fs')
          else if is_dir fs (xs @ [x]) then (None, fs) else (Some e, fs))"
  by (subst mkdir.simps) (auto simp: parent_def split: prod.splits option.splits)

lemmas mkdir_ecs = mkdir_raiz mkdir_anidado mkdir_simple
lemmas fs_splits = prod.splits option.splits nodo.splits if_splits

lemma mkdir_es_dir: "mkdir p True True fs = (None, fs') \<Longrightarrow> is_dir fs' p"
proof (induction p arbitrary: fs fs' rule: rev_induct)
  case Nil
  then show ?case
    by (auto simp: mkdir_ecs os_mkdir_def is_dir_def parent_def split: fs_splits)
next
  case (snoc x xs)
  then show ?case
    by (auto simp: mkdir_ecs os_mkdir_def is_dir_def parent_def split: fs_splits)
qed

lemma mkdir_ya_existe: "is_dir fs p \<Longrightarrow> mkdir p True True fs = (None, fs)"
  by (cases p rule: rev_cases)
     (auto simp: mkdir_ecs os_mkdir_def is_dir_def parent_def split: fs_splits)

lemma mkdir_solo_prefijos:
  "mkdir p True True fs = (r, fs') \<Longrightarrow> nodos fs' q \<noteq> nodos fs q \<Longrightarrow>
     nodos fs q = None \<and> nodos fs' q = Some Directorio \<and> prefix q p"
proof (induction p arbitrary: fs fs' r rule: rev_induct)
  case Nil
  then show ?case
    by (auto simp: mkdir_ecs os_mkdir_def is_dir_def parent_def split: fs_splits)
next
  case (snoc x xs)
  obtain r0 fs0 where os: "os_mkdir (xs @ [x]) fs = (r0, fs0)"
    by (cases "os_mkdir (xs @ [x]) fs")
  obtain r1 fs1 where m1: "mkdir xs True True fs = (r1, fs1)"
    by (cases "mkdir xs True True fs")
  note ih = snoc.IH [OF m1]
  show ?case
  proof (cases "r0 = Some FileNotFoundError \<and> r1 = None")
    case False
    with snoc.prems os m1 ih show ?thesis
      by (auto simp: mkdir_ecs os_mkdir_def is_dir_def parent_def split: fs_splits)
  next
    case True
    with snoc.prems os m1 have m2: "mkdir (xs @ [x]) False True fs1 = (r, fs')"
      by (simp add: mkdir_anidado)
    show ?thesis
    proof (cases "nodos fs1 q = nodos fs q")
      case True
      with snoc.prems(2) m2 show ?thesis
        by (auto simp: mkdir_simple os_mkdir_def is_dir_def parent_def split: fs_splits)
    next
      case False
      then have a: "nodos fs q = None \<and> nodos fs1 q = Some Directorio \<and> prefix q xs"
        by (rule ih)
      from m2 have "nodos fs1 \<subseteq>\<^sub>m nodos fs'" using mkdir_conserva by blast
      with a have "nodos fs' q = Some Directorio" by (auto simp: map_le_def dom_def)
      with a show ?thesis by auto
    qed
  qed
qed

lemma write_text_nuevo:
  assumes "\<not> exists fs p" and "write_text p c fs = (r, fs')"
  shows "nodos fs \<subseteq>\<^sub>m nodos fs'" and "solo_lectura fs' = solo_lectura fs"
    and "r = None \<Longrightarrow> nodos fs' = (nodos fs)(p \<mapsto> Archivo c)"
    and "r \<noteq> None \<Longrightarrow> fs' = fs"
  using assms
  by (auto simp: write_text_def exists_def map_le_def split: fs_splits)

section \<open>Properties of the loop\<close>

lemma bucle_Cons_casos [consumes 1, case_names falla_mkdir omitido falla_write creado]:
  assumes "bucle ruta ((rel, c) # its) s = (r, s')"
  obtains
    e fs1 where "mkdir (parent (unir ruta rel)) True True (disco s) = (Some e, fs1)"
      and "r = Some e" and "s' = s\<lparr>disco := fs1\<rparr>"
  | fs1 where "mkdir (parent (unir ruta rel)) True True (disco s) = (None, fs1)"
      and "exists fs1 (unir ruta rel)"
      and "bucle ruta its (s\<lparr>disco := fs1, omitidos := omitidos s + 1,
             salida := salida s @ [Msg_omitido rel]\<rparr>) = (r, s')"
  | e fs1 fs2 where "mkdir (parent (unir ruta rel)) True True (disco s) = (None, fs1)"
      and "\<not> exists fs1 (unir ruta rel)"
      and "write_text (unir ruta rel) c fs1 = (Some e, fs2)"
      and "r = Some e" and "s' = s\<lparr>disco := fs2\<rparr>"
  | fs1 fs2 where "mkdir (parent (unir ruta rel)) True True (disco s) = (None, fs1)"
      and "\<not> exists fs1 (unir ruta rel)"
      and "write_text (unir ruta rel) c fs1 = (None, fs2)"
      and "bucle ruta its (s\<lparr>disco := fs2, creados := creados s + 1,
             salida := salida s @ [Msg_creado rel]\<rparr>) = (r, s')"
proof -
  obtain r1 fs1 where m: "mkdir (parent (unir ruta rel)) True True (disco s) = (r1, fs1)"
    by (cases "mkdir (parent (unir ruta rel)) True True (disco s)")
  obtain r2 fs2 where w: "write_text (unir ruta rel) c fs1 = (r2, fs2)"
    by (cases "write_text (unir ruta rel) c fs1")
  show thesis
  proof (cases r1)
    case (Some e)
    with assms m show thesis by (intro that(1) [of e fs1]) auto
  next
    case None
    show thesis
    proof (cases "exists fs1 (unir ruta rel)")
      case True
      with assms m None show thesis by (intro that(2) [of fs1]) auto
    next
      case False
      show thesis
      proof (cases r2)
        case (Some e)
        with assms m None False w show thesis by (intro that(3) [of fs1 e fs2]) auto
      next
        case n2: None
        with assms m None False w show thesis by (intro that(4) [of fs1 fs2]) auto
      qed
    qed
  qed
qed

lemma bucle_conserva:
  "bucle ruta its s = (r, s') \<Longrightarrow>
     nodos (disco s) \<subseteq>\<^sub>m nodos (disco s') \<and> solo_lectura (disco s') = solo_lectura (disco s)"
proof (induction its arbitrary: s)
  case Nil
  then show ?case by simp
next
  case (Cons it its)
  obtain rel c where it: "it = (rel, c)" by (cases it)
  from Cons.prems [unfolded it] show ?case
  proof (cases rule: bucle_Cons_casos)
    case (falla_mkdir e fs1)
    then show ?thesis using mkdir_conserva by fastforce
  next
    case (omitido fs1)
    from Cons.IH [OF omitido(3)] mkdir_conserva [OF omitido(1)] show ?thesis
      by (auto intro: map_le_trans)
  next
    case (falla_write e fs1 fs2)
    with mkdir_conserva [OF falla_write(1)] write_text_nuevo(4) [OF falla_write(2,3)]
    show ?thesis by simp
  next
    case (creado fs1 fs2)
    from Cons.IH [OF creado(4)] mkdir_conserva [OF creado(1)]
      write_text_nuevo(1,2) [OF creado(2,3)]
    show ?thesis by (auto intro: map_le_trans)
  qed
qed

lemma conserva_nodo: "nodos fs \<subseteq>\<^sub>m nodos fs' \<Longrightarrow> nodos fs p = Some n \<Longrightarrow> nodos fs' p = Some n"
  by (auto simp: map_le_def dom_def)

text \<open>What the loop prints and counts.\<close>

lemma bucle_salida:
  "bucle ruta its s = (r, s') \<Longrightarrow>
     \<exists>ms. salida s' = salida s @ ms \<and> list_all es_linea_archivo ms
        \<and> map ruta_linea ms = take (length ms) (map fst its)
        \<and> (r = None \<longrightarrow> length ms = length its)
        \<and> (r \<noteq> None \<longrightarrow> length ms < length its)
        \<and> creados s' = creados s + length (filter es_creado ms)
        \<and> omitidos s' = omitidos s + length (filter es_omitido ms)"
proof (induction its arbitrary: s)
  case Nil
  then show ?case by simp
next
  case (Cons it its)
  obtain rel c where it: "it = (rel, c)" by (cases it)
  from Cons.prems [unfolded it] show ?case
  proof (cases rule: bucle_Cons_casos)
    case (falla_mkdir e fs1)
    then show ?thesis by simp
  next
    case (omitido fs1)
    from Cons.IH [OF omitido(3)] obtain ms where
      "salida s' = (salida s @ [Msg_omitido rel]) @ ms" "list_all es_linea_archivo ms"
      "map ruta_linea ms = take (length ms) (map fst its)"
      "r = None \<longrightarrow> length ms = length its" "r \<noteq> None \<longrightarrow> length ms < length its"
      "creados s' = creados s + length (filter es_creado ms)"
      "omitidos s' = omitidos s + 1 + length (filter es_omitido ms)"
      by auto
    then show ?thesis
      by (intro exI [of _ "Msg_omitido rel # ms"]) (simp add: it)
  next
    case (falla_write e fs1 fs2)
    then show ?thesis by simp
  next
    case (creado fs1 fs2)
    from Cons.IH [OF creado(4)] obtain ms where
      "salida s' = (salida s @ [Msg_creado rel]) @ ms" "list_all es_linea_archivo ms"
      "map ruta_linea ms = take (length ms) (map fst its)"
      "r = None \<longrightarrow> length ms = length its" "r \<noteq> None \<longrightarrow> length ms < length its"
      "creados s' = creados s + 1 + length (filter es_creado ms)"
      "omitidos s' = omitidos s + length (filter es_omitido ms)"
      by auto
    then show ?thesis
      by (intro exI [of _ "Msg_creado rel # ms"]) (simp add: it)
  qed
qed




lemma generar_estructura_bucle:
  "generar_estructura nivel ruta fs =
     (case bucle ruta (get_templates nivel) (inicial fs) of
        (Some e, s) \<Rightarrow> (Some e, disco s, salida s)
      | (None, s) \<Rightarrow> (None, disco s, salida s @ resumen s))"
  by (simp add: generar_estructura_def items_def)

lemma existe_tras_mkdir:
  "mkdir p a b fs = (r, fs') \<Longrightarrow> exists fs q \<Longrightarrow> exists fs' q"
  using mkdir_conserva [of p a b fs r fs'] by (auto simp: exists_def map_le_def dom_def)

lemma existe_tras_write:
  "\<not> exists fs p \<Longrightarrow> write_text p c fs = (r, fs') \<Longrightarrow> exists fs q \<Longrightarrow> exists fs' q"
  using write_text_nuevo(1) [of fs p c r fs'] by (auto simp: exists_def map_le_def dom_def)

lemma bucle_no_crea_existente:
  "bucle ruta its s = (r, s') \<Longrightarrow> exists (disco s) (unir ruta rel) \<Longrightarrow>
     Msg_creado rel \<in> set (salida s') \<Longrightarrow> Msg_creado rel \<in> set (salida s)"
proof (induction its arbitrary: s)
  case Nil
  then show ?case by simp
next
  case (Cons it its)
  obtain rel' c where it: "it = (rel', c)" by (cases it)
  from Cons.prems(1) [unfolded it] show ?case
  proof (cases rule: bucle_Cons_casos)
    case (falla_mkdir e fs1)
    with Cons.prems show ?thesis by simp
  next
    case (omitido fs1)
    from existe_tras_mkdir [OF omitido(1) Cons.prems(2)]
    have "Msg_creado rel \<in> set (salida s @ [Msg_omitido rel'])"
      using Cons.IH [OF omitido(3)] Cons.prems(3) by simp
    then show ?thesis by simp
  next
    case (falla_write e fs1 fs2)
    with Cons.prems show ?thesis by simp
  next
    case (creado fs1 fs2)
    have e1: "exists fs1 (unir ruta rel)"
      by (rule existe_tras_mkdir [OF creado(1) Cons.prems(2)])
    with creado(2) have "rel' \<noteq> rel" by auto
    moreover have "Msg_creado rel \<in> set (salida s @ [Msg_creado rel'])"
      using Cons.IH [OF creado(4)] existe_tras_write [OF creado(2,3) e1] Cons.prems(3)
      by simp
    ultimately show ?thesis by simp
  qed
qed

lemma bucle_omite_existente:
  "bucle ruta its s = (None, s') \<Longrightarrow> rel \<in> fst ` set its \<Longrightarrow>
     exists (disco s) (unir ruta rel) \<Longrightarrow> Msg_omitido rel \<in> set (salida s')"
proof (induction its arbitrary: s)
  case Nil
  then show ?case by simp
next
  case (Cons it its)
  obtain rel' c where it: "it = (rel', c)" by (cases it)
  from Cons.prems(1) [unfolded it] show ?case
  proof (cases rule: bucle_Cons_casos)
    case (omitido fs1)
    show ?thesis
    proof (cases "rel' = rel")
      case True
      from bucle_salida [OF omitido(3)] obtain ms where
        "salida s' = (salida s @ [Msg_omitido rel']) @ ms" by auto
      with True show ?thesis by simp
    next
      case False
      with Cons.prems(2) it have "rel \<in> fst ` set its" by auto
      from Cons.IH [OF omitido(3) this] existe_tras_mkdir [OF omitido(1) Cons.prems(3)]
      show ?thesis by simp
    qed
  next
    case (creado fs1 fs2)
    have e1: "exists fs1 (unir ruta rel)"
      by (rule existe_tras_mkdir [OF creado(1) Cons.prems(3)])
    with creado(2) have "rel' \<noteq> rel" by auto
    with Cons.prems(2) it have "rel \<in> fst ` set its" by auto
    from Cons.IH [OF creado(4) this] existe_tras_write [OF creado(2,3) e1]
    show ?thesis by simp
  qed simp_all
qed

section \<open>A run into an empty destination\<close>

lemma bien_formado_prefijos:
  "bien_formado fs \<Longrightarrow> nodos fs p \<noteq> None \<Longrightarrow> strict_prefix q p \<Longrightarrow>
     nodos fs q = Some Directorio"
proof (induction p rule: rev_induct)
  case Nil
  then show ?case by simp
next
  case (snoc x xs)
  from snoc.prems(1,2) have dir: "nodos fs xs = Some Directorio"
    unfolding bien_formado_def parent_def by (metis butlast_snoc)
  from snoc.prems(3) have "prefix q xs" by (auto simp: strict_prefix_def)
  then consider "q = xs" | "strict_prefix q xs" by (auto simp: strict_prefix_def)
  then show ?case
  proof cases
    case 1
    with dir show ?thesis by simp
  next
    case 2
    from dir have "nodos fs xs \<noteq> None" by simp
    from snoc.IH [OF snoc.prems(1) this 2] show ?thesis .
  qed
qed

lemma mkdir_fresco:
  assumes "bien_formado fs" and "nodos fs [] = Some Directorio" and "solo_lectura fs = {}"
    and "\<forall>q c. prefix q p \<longrightarrow> nodos fs q \<noteq> Some (Archivo c)"
  shows "\<exists>fs1. mkdir p True True fs = (None, fs1) \<and> solo_lectura fs1 = {}
      \<and> (\<forall>q. nodos fs1 q = (if prefix q p then Some Directorio else nodos fs q))"
  using assms(4)
proof (induction p rule: rev_induct)
  case Nil
  with assms(2) show ?case
    by (auto simp: mkdir_raiz os_mkdir_def is_dir_def assms(3))
next
  case (snoc x xs)
  let ?p = "xs @ [x]"
  from snoc.prems have nofile: "\<And>c. nodos fs ?p \<noteq> Some (Archivo c)"
    and nofile_xs: "\<And>c. nodos fs xs \<noteq> Some (Archivo c)"
    and pre: "\<forall>q c. prefix q xs \<longrightarrow> nodos fs q \<noteq> Some (Archivo c)"
    by auto
  show ?case
  proof (cases "nodos fs ?p")
    case (Some n)
    with nofile have d: "nodos fs ?p = Some Directorio" by (cases n) auto
    have "nodos fs q = Some Directorio" if "prefix q ?p" for q
    proof (cases "q = ?p")
      case True
      with d show ?thesis by simp
    next
      case False
      with that have sp: "strict_prefix q ?p" by (simp add: strict_prefix_def)
      from d have "nodos fs ?p \<noteq> None" by simp
      from bien_formado_prefijos [OF assms(1) this sp] show ?thesis .
    qed
    with d show ?thesis
      by (auto simp: mkdir_anidado os_mkdir_def is_dir_def assms(3))
  next
    case None
    show ?thesis
    proof (cases "nodos fs xs")
      case (Some n)
      with nofile_xs have d: "nodos fs xs = Some Directorio" by (cases n) auto
      have "nodos fs q = Some Directorio" if "prefix q xs" for q
      proof (cases "q = xs")
        case True
        with d show ?thesis by simp
      next
        case False
        with that have sp: "strict_prefix q xs" by (simp add: strict_prefix_def)
        from d have "nodos fs xs \<noteq> None" by simp
        from bien_formado_prefijos [OF assms(1) this sp] show ?thesis .
      qed
      with None d show ?thesis
        by (auto simp: mkdir_anidado os_mkdir_def parent_def assms(3))
    next
      case n2: None
      from snoc.IH [OF pre] obtain fs1 where
        m1: "mkdir xs True True fs = (None, fs1)" and ro: "solo_lectura fs1 = {}"
        and nod: "\<forall>q. nodos fs1 q = (if prefix q xs then Some Directorio else nodos fs q)"
        by blast
      from nod None have a: "nodos fs1 ?p = None" by simp
      from nod have b: "nodos fs1 xs = Some Directorio" by simp
      have "mkdir ?p True True fs = mkdir ?p False True fs1"
        using None n2 m1 by (simp add: mkdir_anidado os_mkdir_def parent_def)
      also have "\<dots> = (None, fs1\<lparr>nodos := (nodos fs1)(?p \<mapsto> Directorio)\<rparr>)"
        using a b ro by (simp add: mkdir_simple os_mkdir_def parent_def)
      finally show ?thesis using nod ro by auto
    qed
  qed
qed

lemma prefijo_butlast: "t \<noteq> [] \<Longrightarrow> prefix q (butlast t) \<Longrightarrow> strict_prefix q t"
  by (metis append_butlast_last_id prefix_order.le_less_trans strict_prefixI' )

lemma no_prefijo_mas_largo: "t \<noteq> [] \<Longrightarrow> \<not> prefix (ruta @ t) (ruta @ butlast t)"
proof
  assume "t \<noteq> []" and "prefix (ruta @ t) (ruta @ butlast t)"
  then have "prefix t (butlast t)" by simp
  then have "length t \<le> length (butlast t)" by (rule prefix_length_le)
  with \<open>t \<noteq> []\<close> show False by (cases t rule: rev_cases) simp_all
qed

lemma paso_fresco:
  assumes inv: "inv_fresco ruta H fs" and t: "t \<noteq> []" "t \<notin> H"
    and conf: "\<forall>u\<in>H. \<not> strict_prefix t u \<and> \<not> strict_prefix u t"
  shows "\<exists>fs1 fs2. mkdir (parent (ruta @ t)) True True fs = (None, fs1)
      \<and> \<not> exists fs1 (ruta @ t)
      \<and> write_text (ruta @ t) c fs1 = (None, fs2)
      \<and> inv_fresco ruta (insert t H) fs2
      \<and> nodos fs2 (ruta @ t) = Some (Archivo c)"
proof -
  let ?pt = "ruta @ butlast t"
  from inv have wf: "bien_formado fs" and raiz: "nodos fs [] = Some Directorio"
    and ro: "solo_lectura fs = {}"
    and arriba: "\<And>q c. prefix q ruta \<Longrightarrow> nodos fs q \<noteq> Some (Archivo c)"
    and archivos: "\<And>q c. nodos fs (ruta @ q) = Some (Archivo c) \<Longrightarrow> q \<in> H"
    and dirs: "\<And>q. q \<noteq> [] \<Longrightarrow> nodos fs (ruta @ q) = Some Directorio \<Longrightarrow>
        \<exists>u\<in>H. strict_prefix q u"
    unfolding inv_fresco_def by blast+
  have pt: "parent (ruta @ t) = ?pt"
    using t(1) by (simp add: parent_def butlast_append)
  have libre: "nodos fs q \<noteq> Some (Archivo c')" if "prefix q ?pt" for q c'
  proof (cases "prefix q ruta")
    case True
    then show ?thesis by (rule arriba)
  next
    case False
    with that obtain q' where q: "q = ruta @ q'" and q': "prefix q' (butlast t)"
      by (auto simp: prefix_append)
    from prefijo_butlast [OF t(1) q'] have "strict_prefix q' t" .
    with conf have "q' \<notin> H" by blast
    with archivos show ?thesis unfolding q by blast
  qed
  then have "\<forall>q c. prefix q ?pt \<longrightarrow> nodos fs q \<noteq> Some (Archivo c)" by blast
  from mkdir_fresco [OF wf raiz ro this] obtain fs1 where
    m: "mkdir ?pt True True fs = (None, fs1)" and ro1: "solo_lectura fs1 = {}"
    and n1: "\<And>q. nodos fs1 q = (if prefix q ?pt then Some Directorio else nodos fs q)"
    by blast
  have viejo: "nodos fs (ruta @ t) = None"
  proof (cases "nodos fs (ruta @ t)")
    case (Some n)
    show ?thesis
    proof (cases n)
      case Directorio
      with Some dirs [OF t(1)] conf show ?thesis by blast
    next
      case (Archivo c')
      with Some archivos t(2) show ?thesis by blast
    qed
  qed simp
  have libre1: "nodos fs1 (ruta @ t) = None"
    using n1 [of "ruta @ t"] no_prefijo_mas_largo [OF t(1)] viejo by simp
  have dir1: "nodos fs1 ?pt = Some Directorio" using n1 [of ?pt] by simp
  define fs2 where "fs2 = fs1\<lparr>nodos := (nodos fs1)(ruta @ t \<mapsto> Archivo c)\<rparr>"
  have w: "write_text (ruta @ t) c fs1 = (None, fs2)"
    using libre1 dir1 ro1 by (simp add: write_text_def pt fs2_def)
  have n2: "nodos fs2 q = (if q = ruta @ t then Some (Archivo c) else nodos fs1 q)" for q
    by (simp add: fs2_def)
  have wf1: "nodos fs1 (parent q) = Some Directorio" if "nodos fs1 q \<noteq> None" for q
  proof (cases "prefix q ?pt")
    case True
    have "prefix (butlast q) q" by (simp add: prefixeq_butlast)
    from this True have "prefix (parent q) ?pt"
      unfolding parent_def by (rule prefix_order.trans)
    then show ?thesis by (simp add: n1)
  next
    case False
    with that have "nodos fs q \<noteq> None" by (simp add: n1)
    with wf have "nodos fs (parent q) = Some Directorio" by (simp add: bien_formado_def)
    then show ?thesis by (simp add: n1)
  qed
  have wf2: "bien_formado fs2"
    unfolding bien_formado_def
  proof (intro allI impI)
    fix q assume q: "nodos fs2 q \<noteq> None"
    have "nodos fs1 (parent q) = Some Directorio"
    proof (cases "q = ruta @ t")
      case True
      with dir1 pt show ?thesis by simp
    next
      case False
      with q have "nodos fs1 q \<noteq> None" by (simp add: n2)
      then show ?thesis by (rule wf1)
    qed
    moreover from this libre1 have "parent q \<noteq> ruta @ t" by auto
    ultimately show "nodos fs2 (parent q) = Some Directorio" by (simp add: n2)
  qed
  have raiz2: "nodos fs2 [] = Some Directorio"
    using t(1) by (simp add: n2 n1)
  have arriba2: "nodos fs2 q \<noteq> Some (Archivo c')" if "prefix q ruta" for q c'
  proof -
    from that have "q \<noteq> ruta @ t" using t(1) by (auto dest: prefix_length_le)
    moreover from that have "prefix q ?pt" by (simp add: prefix_prefix)
    ultimately show ?thesis by (simp add: n2 n1)
  qed
  have archivos2: "q \<in> insert t H" if "nodos fs2 (ruta @ q) = Some (Archivo c')" for q c'
  proof (cases "q = t")
    case False
    with that have "nodos fs1 (ruta @ q) = Some (Archivo c')" by (simp add: n2)
    then have "nodos fs (ruta @ q) = Some (Archivo c')"
      by (simp add: n1 split: if_splits)
    with archivos show ?thesis by blast
  qed simp
  have dirs2: "\<exists>u\<in>insert t H. strict_prefix q u"
    if "q \<noteq> []" and "nodos fs2 (ruta @ q) = Some Directorio" for q
  proof -
    from that(2) have d1: "nodos fs1 (ruta @ q) = Some Directorio"
      by (simp add: n2 split: if_splits)
    show ?thesis
    proof (cases "prefix (ruta @ q) ?pt")
      case True
      then have "prefix q (butlast t)" by simp
      from prefijo_butlast [OF t(1) this] show ?thesis by blast
    next
      case False
      with d1 have "nodos fs (ruta @ q) = Some Directorio" by (simp add: n1)
      from dirs [OF that(1) this] show ?thesis by blast
    qed
  qed
  have "inv_fresco ruta (insert t H) fs2"
    unfolding inv_fresco_def
    using wf2 raiz2 arriba2 archivos2 dirs2 ro1 by (auto simp: fs2_def)
  moreover have "\<not> exists fs1 (ruta @ t)" using libre1 by (simp add: exists_def)
  moreover have "nodos fs2 (ruta @ t) = Some (Archivo c)" by (simp add: n2)
  ultimately show ?thesis using m w pt by auto
qed

lemma unir_relativa: "relativa k \<Longrightarrow> unir ruta k = ruta @ componentes k"
  by (cases k) (auto simp: relativa_def unir_def componentes_def)

lemma bucle_fresco:
  assumes "inv_fresco ruta H (disco s)"
    and "list_all (\<lambda>kv. relativa (fst kv)) its"
    and "\<forall>t\<in>set (destinos its). t \<noteq> []"
    and "distinct (destinos its)"
    and "set (destinos its) \<inter> H = {}"
    and "\<forall>t\<in>set (destinos its). \<forall>u\<in>H \<union> set (destinos its).
           \<not> strict_prefix t u \<and> \<not> strict_prefix u t"
  shows "\<exists>s'. bucle ruta its s = (None, s')
      \<and> salida s' = salida s @ map (Msg_creado \<circ> fst) its
      \<and> creados s' = creados s + length its \<and> omitidos s' = omitidos s
      \<and> inv_fresco ruta (H \<union> set (destinos its)) (disco s')
      \<and> (\<forall>kv\<in>set its. nodos (disco s') (ruta @ componentes (fst kv))
            = Some (Archivo (snd kv)))"
  using assms
proof (induction its arbitrary: s H)
  case Nil
  then show ?case by (simp add: destinos_def)
next
  case (Cons it its)
  obtain rel c where it: "it = (rel, c)" by (cases it)
  define t where "t = componentes rel"
  have d: "destinos (it # its) = t # destinos its"
    by (simp add: destinos_def it t_def)
  from Cons.prems(2) have rel: "relativa rel" and rels: "list_all (\<lambda>kv. relativa (fst kv)) its"
    by (simp_all add: it)
  have u: "unir ruta rel = ruta @ t"
    unfolding t_def by (rule unir_relativa [OF rel])
  from Cons.prems(3,4,5) have t: "t \<noteq> []" "t \<notin> H" "t \<notin> set (destinos its)"
    by (auto simp: d)
  from Cons.prems(6) have conf: "\<forall>u\<in>H. \<not> strict_prefix t u \<and> \<not> strict_prefix u t"
    by (auto simp: d)
  from paso_fresco [OF Cons.prems(1) t(1,2) conf, of c] obtain fs1 fs2 where
    m: "mkdir (parent (ruta @ t)) True True (disco s) = (None, fs1)"
    and ne: "\<not> exists fs1 (ruta @ t)"
    and w: "write_text (ruta @ t) c fs1 = (None, fs2)"
    and inv2: "inv_fresco ruta (insert t H) fs2"
    and escrito: "nodos fs2 (ruta @ t) = Some (Archivo c)"
    by blast
  define s1 where "s1 = s\<lparr>disco := fs2, creados := creados s + 1,
      salida := salida s @ [Msg_creado rel]\<rparr>"
  have paso: "bucle ruta ((rel, c) # its) s = bucle ruta its s1"
    using m ne w by (simp add: u s1_def)
  have "\<exists>s'. bucle ruta its s1 = (None, s')
      \<and> salida s' = salida s1 @ map (Msg_creado \<circ> fst) its
      \<and> creados s' = creados s1 + length its \<and> omitidos s' = omitidos s1
      \<and> inv_fresco ruta (insert t H \<union> set (destinos its)) (disco s')
      \<and> (\<forall>kv\<in>set its. nodos (disco s') (ruta @ componentes (fst kv))
            = Some (Archivo (snd kv)))"
  proof (rule Cons.IH)
    show "inv_fresco ruta (insert t H) (disco s1)" using inv2 by (simp add: s1_def)
    show "list_all (\<lambda>kv. relativa (fst kv)) its" by (rule rels)
    show "\<forall>t\<in>set (destinos its). t \<noteq> []" using Cons.prems(3) by (simp add: d)
    show "distinct (destinos its)" using Cons.prems(4) by (simp add: d)
    show "set (destinos its) \<inter> insert t H = {}" using Cons.prems(5) t(3) by (auto simp: d)
    show "\<forall>t'\<in>set (destinos its). \<forall>u\<in>insert t H \<union> set (destinos its).
        \<not> strict_prefix t' u \<and> \<not> strict_prefix u t'"
      using Cons.prems(6) by (auto simp: d)
  qed
  then obtain s' where s': "bucle ruta its s1 = (None, s')"
    "salida s' = salida s1 @ map (Msg_creado \<circ> fst) its"
    "creados s' = creados s1 + length its" "omitidos s' = omitidos s1"
    "inv_fresco ruta (insert t H \<union> set (destinos its)) (disco s')"
    and resto: "\<forall>kv\<in>set its. nodos (disco s') (ruta @ componentes (fst kv))
            = Some (Archivo (snd kv))"
    by blast
  from bucle_conserva [OF s'(1)] escrito
  have "nodos (disco s') (ruta @ t) = Some (Archivo c)"
    by (auto simp: s1_def intro: conserva_nodo)
  with resto have "\<forall>kv\<in>set ((rel, c) # its).
      nodos (disco s') (ruta @ componentes (fst kv)) = Some (Archivo (snd kv))"
    by (simp add: t_def)
  moreover from s' have "bucle ruta ((rel, c) # its) s = (None, s')
      \<and> salida s' = salida s @ map (Msg_creado \<circ> fst) ((rel, c) # its)
      \<and> creados s' = creados s + length ((rel, c) # its) \<and> omitidos s' = omitidos s
      \<and> inv_fresco ruta (H \<union> set (t # destinos its)) (disco s')"
    unfolding paso by (simp add: s1_def)
  ultimately show ?case unfolding it d [unfolded it] by blast
qed

lemma bien_formado_disco_con: "bien_formado (disco_con p)"
proof -
  have "prefix (butlast q) p" if "prefix q p" for q
  proof -
    have "prefix (butlast q) q" by (simp add: prefixeq_butlast)
    from this that show ?thesis by (rule prefix_order.trans)
  qed
  then show ?thesis by (simp add: bien_formado_def disco_con_def parent_def)
qed

lemma inv_fresco_disco_con:
  assumes "prefix p ruta"
  shows "inv_fresco ruta {} (disco_con p)"
proof -
  have "q = []" if "prefix (ruta @ q) p" for q
  proof -
    from that assms have "prefix (ruta @ q) ruta" by (rule prefix_order.trans)
    then show ?thesis by (auto dest: prefix_length_le)
  qed
  then show ?thesis
    using bien_formado_disco_con [of p]
    by (auto simp: inv_fresco_def disco_con_def)
qed

lemma sin_conflictos_D:
  assumes "sin_conflictos its"
  shows "list_all (\<lambda>kv. relativa (fst kv)) its" and "\<forall>t\<in>set (destinos its). t \<noteq> []"
    and "distinct (destinos its)"
    and "\<forall>t\<in>set (destinos its). \<forall>u\<in>{} \<union> set (destinos its).
           \<not> strict_prefix t u \<and> \<not> strict_prefix u t"
  using assms by (auto simp: sin_conflictos_def list_all_iff)

lemma bucle_destino_vacio:
  assumes "sin_conflictos its" and "prefix p ruta"
  shows "\<exists>s'. bucle ruta its (inicial (disco_con p)) = (None, s')
      \<and> salida s' = map (Msg_creado \<circ> fst) its
      \<and> creados s' = length its \<and> omitidos s' = 0
      \<and> (\<forall>kv\<in>set its. nodos (disco s') (unir ruta (fst kv)) = Some (Archivo (snd kv)))"
proof -
  have u: "unir ruta (fst kv) = ruta @ componentes (fst kv)" if "kv \<in> set its" for kv
    using that sin_conflictos_D(1) [OF assms(1)]
    by (auto simp: list_all_iff intro: unir_relativa)
  have "inv_fresco ruta {} (disco (inicial (disco_con p)))"
    using inv_fresco_disco_con [OF assms(2)] by (simp add: inicial_def)
  from bucle_fresco [OF this sin_conflictos_D(1,2,3) [OF assms(1)] _
      sin_conflictos_D(4) [OF assms(1)]]
  show ?thesis by (auto simp: inicial_def u)
qed

section \<open>Repeated runs, directories and the command line\<close>

lemma sin_conflictos_1: "sin_conflictos (get_templates 1)"
  by code_simp
lemma sin_conflictos_2: "sin_conflictos (get_templates 2)"
  by code_simp
lemma sin_conflictos_3: "sin_conflictos (get_templates 3)"
  by code_simp
lemma sin_conflictos_4: "sin_conflictos (get_templates 4)"
  by code_simp
lemma sin_conflictos_5: "sin_conflictos (get_templates 5)"
  by code_simp

lemma sin_conflictos_niveles:
  assumes "1 \<le> nivel" and "nivel \<le> 5"
  shows "sin_conflictos (get_templates nivel)"
proof -
  from assms have "nivel = 1 \<or> nivel = 2 \<or> nivel = 3 \<or> nivel = 4 \<or> nivel = 5" by linarith
  then show ?thesis
    using sin_conflictos_1 sin_conflictos_2 sin_conflictos_3 sin_conflictos_4 sin_conflictos_5
    by auto
qed

lemma es_dir_conserva: "nodos fs \<subseteq>\<^sub>m nodos fs' \<Longrightarrow> is_dir fs p \<Longrightarrow> is_dir fs' p"
  by (auto simp: is_dir_def intro: conserva_nodo)

lemma existe_conserva: "nodos fs \<subseteq>\<^sub>m nodos fs' \<Longrightarrow> exists fs p \<Longrightarrow> exists fs' p"
  by (auto simp: exists_def map_le_def dom_def)

lemma bucle_todo_presente:
  "bucle ruta its s = (None, s') \<Longrightarrow> rel \<in> fst ` set its \<Longrightarrow>
     exists (disco s') (unir ruta rel) \<and> is_dir (disco s') (parent (unir ruta rel))"
proof (induction its arbitrary: s)
  case Nil
  then show ?case by simp
next
  case (Cons it its)
  obtain rel' c where it: "it = (rel', c)" by (cases it)
  from Cons.prems(1) [unfolded it] show ?case
  proof (cases rule: bucle_Cons_casos)
    case (omitido fs1)
    show ?thesis
    proof (cases "rel' = rel")
      case True
      from mkdir_es_dir [OF omitido(1)] omitido(2) bucle_conserva [OF omitido(3)]
      show ?thesis unfolding True by (auto intro: es_dir_conserva existe_conserva)
    next
      case False
      with Cons.prems(2) it have "rel \<in> fst ` set its" by auto
      from Cons.IH [OF omitido(3) this] show ?thesis .
    qed
  next
    case (creado fs1 fs2)
    show ?thesis
    proof (cases "rel' = rel")
      case True
      from write_text_nuevo(3) [OF creado(2,3)] have "exists fs2 (unir ruta rel')"
        by (simp add: exists_def)
      moreover from mkdir_es_dir [OF creado(1)] write_text_nuevo(1) [OF creado(2,3)]
      have "is_dir fs2 (parent (unir ruta rel'))" by (auto intro: es_dir_conserva)
      ultimately show ?thesis
        using bucle_conserva [OF creado(4)] unfolding True
        by (auto intro: es_dir_conserva existe_conserva)
    next
      case False
      with Cons.prems(2) it have "rel \<in> fst ` set its" by auto
      from Cons.IH [OF creado(4) this] show ?thesis .
    qed
  qed simp_all
qed

lemma bucle_todo_omitido:
  "\<forall>rel\<in>fst ` set its. exists (disco s) (unir ruta rel)
       \<and> is_dir (disco s) (parent (unir ruta rel)) \<Longrightarrow>
   bucle ruta its s =
     (None, s\<lparr>omitidos := omitidos s + length its,
              salida := salida s @ map (\<lambda>kv. Msg_omitido (fst kv)) its\<rparr>)"
proof (induction its arbitrary: s)
  case Nil
  then show ?case by simp
next
  case (Cons it its)
  obtain rel c where it: "it = (rel, c)" by (cases it)
  define s1 where "s1 = s\<lparr>disco := disco s, omitidos := omitidos s + 1,
      salida := salida s @ [Msg_omitido rel]\<rparr>"
  from Cons.prems have ex: "exists (disco s) (unir ruta rel)"
    and d: "is_dir (disco s) (parent (unir ruta rel))"
    by (simp_all add: it)
  have paso: "bucle ruta ((rel, c) # its) s = bucle ruta its s1"
    using ex mkdir_ya_existe [OF d] by (simp add: s1_def)
  have "bucle ruta its s1 =
     (None, s1\<lparr>omitidos := omitidos s1 + length its,
               salida := salida s1 @ map (\<lambda>kv. Msg_omitido (fst kv)) its\<rparr>)"
    using Cons.prems by (intro Cons.IH) (simp add: s1_def)
  then show ?case unfolding it paso by (simp add: s1_def)
qed

lemma segunda_pasada_general:
  assumes "generar_estructura nivel ruta fs = (None, fs1, out)"
  shows "generar_estructura nivel ruta fs1 =
     (None, fs1,
      map Msg_omitido (rutas (get_templates nivel))
      @ [Msg_linea_vacia, Msg_total_creados 0]
      @ (if get_templates nivel = [] then []
         else [Msg_total_omitidos (length (get_templates nivel))])
      @ [Msg_fin_linea])"
proof -
  obtain r s' where b: "bucle ruta (get_templates nivel) (inicial fs) = (r, s')"
    by (cases "bucle ruta (get_templates nivel) (inicial fs)")
  with assms have r: "r = None" and fs1: "fs1 = disco s'"
    by (cases r; simp add: generar_estructura_bucle)+
  have "\<forall>rel\<in>fst ` set (get_templates nivel).
      exists (disco (inicial fs1)) (unir ruta rel)
      \<and> is_dir (disco (inicial fs1)) (parent (unir ruta rel))"
    using bucle_todo_presente [OF b [unfolded r]] by (simp add: inicial_def fs1)
  from bucle_todo_omitido [OF this] show ?thesis
    by (simp add: generar_estructura_bucle inicial_def resumen_def rutas_def)
qed

lemma primera_pasada:
  assumes "1 \<le> nivel" and "nivel \<le> 5" and "prefix p ruta"
  shows "\<exists>fs1. generar_estructura nivel ruta (disco_con p) =
     (None, fs1,
      map Msg_creado (rutas (get_templates nivel))
      @ [Msg_linea_vacia, Msg_total_creados (length (get_templates nivel)), Msg_fin_linea])
    \<and> list_all (\<lambda>kv. nodos fs1 (unir ruta (fst kv)) = Some (Archivo (snd kv)))
          (get_templates nivel)"
proof -
  from bucle_destino_vacio [OF sin_conflictos_niveles [OF assms(1,2)] assms(3)]
  obtain s' where "bucle ruta (get_templates nivel) (inicial (disco_con p)) = (None, s')"
    "salida s' = map (Msg_creado \<circ> fst) (get_templates nivel)"
    "creados s' = length (get_templates nivel)" "omitidos s' = 0"
    "\<forall>kv\<in>set (get_templates nivel).
       nodos (disco s') (unir ruta (fst kv)) = Some (Archivo (snd kv))"
    by blast
  then show ?thesis
    by (simp add: generar_estructura_bucle resumen_def rutas_def comp_def list_all_iff)
qed

lemma dict_set_no_vacio: "dict_set d k v \<noteq> []"
  by (cases d) (auto split: if_splits)

lemma asignar_no_vacio: "d \<noteq> [] \<Longrightarrow> asignar d kvs \<noteq> []"
proof (induction kvs arbitrary: d)
  case Nil
  then show ?case by simp
next
  case (Cons kv kvs)
  obtain k v where kv: "kv = (k, v)" by (cases kv)
  have "asignar (dict_set d k v) kvs \<noteq> []"
    by (rule Cons.IH) (rule dict_set_no_vacio)
  then show ?case by (simp add: kv)
qed

lemma get_templates_no_vacio:
  assumes "1 \<le> nivel"
  shows "get_templates nivel \<noteq> []"
proof -
  have r: "asignar [] bloque_raiz \<noteq> []"
    by (simp add: bloque_raiz_def)
  from assms consider "nivel = 1" | "nivel = 2" | "3 \<le> nivel" by linarith
  then show ?thesis
  proof cases
    case 1
    then show ?thesis by (simp add: get_templates_def)
  next
    case 2
    then show ?thesis by (simp add: get_templates_def)
  next
    case 3
    then show ?thesis
      unfolding get_templates_def Let_def
      by (simp add: asignar_no_vacio r)
  qed
qed

text \<open>
  C4: a level between 1 and 5 is materialized into a destination that exists and is
  empty. The first run returns normally and creates every entry, each file with the
  content of its template; the second run, on the filesystem the first one left, returns
  normally, leaves that filesystem as it is, creates nothing and skips all \<open>N\<close> entries.
\<close>

theorem idempotencia:
  assumes "1 \<le> nivel" and "nivel \<le> 5"
  shows "\<exists>fs1.
     generar_estructura nivel ruta (disco_con ruta) =
       (None, fs1,
        map Msg_creado (rutas (get_templates nivel))
        @ [Msg_linea_vacia, Msg_total_creados (length (get_templates nivel)), Msg_fin_linea])
     \<and> list_all (\<lambda>kv. nodos fs1 (unir ruta (fst kv)) = Some (Archivo (snd kv)))
          (get_templates nivel)
     \<and> generar_estructura nivel ruta fs1 =
       (None, fs1,
        map Msg_omitido (rutas (get_templates nivel))
        @ [Msg_linea_vacia, Msg_total_creados 0,
           Msg_total_omitidos (length (get_templates nivel)), Msg_fin_linea])"
proof -
  from primera_pasada [OF assms prefix_order.refl] obtain fs1 where
    1: "generar_estructura nivel ruta (disco_con ruta) =
       (None, fs1,
        map Msg_creado (rutas (get_templates nivel))
        @ [Msg_linea_vacia, Msg_total_creados (length (get_templates nivel)), Msg_fin_linea])"
    and 2: "list_all (\<lambda>kv. nodos fs1 (unir ruta (fst kv)) = Some (Archivo (snd kv)))
          (get_templates nivel)"
    by blast
  from segunda_pasada_general [OF 1] get_templates_no_vacio [OF assms(1)]
  have "generar_estructura nivel ruta fs1 =
       (None, fs1,
        map Msg_omitido (rutas (get_templates nivel))
        @ [Msg_linea_vacia, Msg_total_creados 0,
           Msg_total_omitidos (length (get_templates nivel)), Msg_fin_linea])"
    by simp
  with 1 2 show ?thesis by blast
qed

theorem idempotencia_witness:
  "snd (snd (generar_estructura 2 [''D''] (disco_con [''D''])))
     = [Msg_creado ''backend.py'', Msg_creado ''frontend.py'',
        Msg_linea_vacia, Msg_total_creados 2, Msg_fin_linea] \<and>
   nodos (fst (snd (generar_estructura 2 [''D''] (disco_con [''D''])))) (unir [''D''] ''frontend.py'')
     = Some (Archivo (Cuerpo Inline_frontend)) \<and>
   generar_estructura 2 [''D''] (fst (snd (generar_estructura 2 [''D''] (disco_con [''D''])))) =
     (None, fst (snd (generar_estructura 2 [''D''] (disco_con [''D'']))),
      [Msg_omitido ''backend.py'', Msg_omitido ''frontend.py'',
       Msg_linea_vacia, Msg_total_creados 0, Msg_total_omitidos 2, Msg_fin_linea])"
proof -
  have t: "get_templates 2 =
     [(''backend.py'', Cuerpo Inline_backend), (''frontend.py'', Cuerpo Inline_frontend)]"
    by (simp add: get_templates_def)
  from idempotencia [of 2 "[''D'']"] obtain fs1 where
    "generar_estructura 2 [''D''] (disco_con [''D'']) =
       (None, fs1,
        map Msg_creado (rutas (get_templates 2))
        @ [Msg_linea_vacia, Msg_total_creados (length (get_templates 2)), Msg_fin_linea])"
    "list_all (\<lambda>kv. nodos fs1 (unir [''D''] (fst kv)) = Some (Archivo (snd kv)))
       (get_templates 2)"
    "generar_estructura 2 [''D''] fs1 =
       (None, fs1,
        map Msg_omitido (rutas (get_templates 2))
        @ [Msg_linea_vacia, Msg_total_creados 0,
           Msg_total_omitidos (length (get_templates 2)), Msg_fin_linea])"
    by auto
  then show ?thesis by (simp add: t rutas_def)
qed

lemma os_mkdir_bien_formado:
  assumes "bien_formado fs" and "os_mkdir p fs = (r, fs')"
  shows "bien_formado fs'"
proof (cases r)
  case (Some e)
  with assms(2) have "fs' = fs" by (auto dest: os_mkdir_falla)
  with assms(1) show ?thesis by simp
next
  case None
  with assms(2) have libre: "nodos fs p = None" and padre: "nodos fs (parent p) = Some Directorio"
    and fs': "fs' = fs\<lparr>nodos := (nodos fs)(p \<mapsto> Directorio)\<rparr>"
    by (auto simp: os_mkdir_def split: fs_splits)
  show ?thesis
    unfolding bien_formado_def
  proof (intro allI impI)
    fix q assume q: "nodos fs' q \<noteq> None"
    have "nodos fs (parent q) = Some Directorio"
    proof (cases "q = p")
      case True
      with padre show ?thesis by simp
    next
      case False
      with q have "nodos fs q \<noteq> None" by (simp add: fs')
      with assms(1) show ?thesis by (simp add: bien_formado_def)
    qed
    then show "nodos fs' (parent q) = Some Directorio" by (simp add: fs')
  qed
qed

lemma mkdir_bien_formado:
  "bien_formado fs \<Longrightarrow> mkdir p True True fs = (r, fs') \<Longrightarrow> bien_formado fs'"
proof (induction p arbitrary: fs fs' r rule: rev_induct)
  case Nil
  obtain r0 fs0 where os: "os_mkdir [] fs = (r0, fs0)" by (cases "os_mkdir [] fs")
  from os_mkdir_bien_formado [OF Nil.prems(1) os] Nil.prems os show ?case
    by (auto simp: mkdir_raiz split: fs_splits)
next
  case (snoc x xs)
  obtain r0 fs0 where os: "os_mkdir (xs @ [x]) fs = (r0, fs0)"
    by (cases "os_mkdir (xs @ [x]) fs")
  obtain r1 fs1 where m1: "mkdir xs True True fs = (r1, fs1)"
    by (cases "mkdir xs True True fs")
  obtain r2 fs2 where os2: "os_mkdir (xs @ [x]) fs1 = (r2, fs2)"
    by (cases "os_mkdir (xs @ [x]) fs1")
  have wf1: "bien_formado fs1" by (rule snoc.IH [OF snoc.prems(1) m1])
  have wf0: "bien_formado fs0" by (rule os_mkdir_bien_formado [OF snoc.prems(1) os])
  have wf2: "bien_formado fs2" by (rule os_mkdir_bien_formado [OF wf1 os2])
  from snoc.prems(2) os m1 os2 have "fs' = fs \<or> fs' = fs0 \<or> fs' = fs1 \<or> fs' = fs2"
    by (auto simp: mkdir_anidado mkdir_simple split: fs_splits)
  with snoc.prems(1) wf0 wf1 wf2 show ?case by auto
qed

lemma write_text_bien_formado:
  assumes "bien_formado fs" and "write_text p c fs = (r, fs')"
  shows "bien_formado fs'"
proof (cases r)
  case (Some e)
  with assms have "fs' = fs" by (auto simp: write_text_def split: fs_splits)
  with assms(1) show ?thesis by simp
next
  case None
  with assms(2) have padre: "nodos fs (parent p) = Some Directorio"
    and nodir: "nodos fs p \<noteq> Some Directorio"
    and fs': "fs' = fs\<lparr>nodos := (nodos fs)(p \<mapsto> Archivo c)\<rparr>"
    by (auto simp: write_text_def split: fs_splits)
  show ?thesis
    unfolding bien_formado_def
  proof (intro allI impI)
    fix q assume q: "nodos fs' q \<noteq> None"
    have d: "nodos fs (parent q) = Some Directorio"
    proof (cases "q = p")
      case True
      with padre show ?thesis by simp
    next
      case False
      with q have "nodos fs q \<noteq> None" by (simp add: fs')
      with assms(1) show ?thesis by (simp add: bien_formado_def)
    qed
    with nodir have "parent q \<noteq> p" by auto
    with d show "nodos fs' (parent q) = Some Directorio" by (simp add: fs')
  qed
qed

lemma bucle_bien_formado:
  "bien_formado (disco s) \<Longrightarrow> bucle ruta its s = (r, s') \<Longrightarrow> bien_formado (disco s')"
proof (induction its arbitrary: s)
  case Nil
  then show ?case by simp
next
  case (Cons it its)
  obtain rel c where it: "it = (rel, c)" by (cases it)
  from Cons.prems(2) [unfolded it] show ?case
  proof (cases rule: bucle_Cons_casos)
    case (falla_mkdir e fs1)
    with mkdir_bien_formado [OF Cons.prems(1) falla_mkdir(1)] show ?thesis by simp
  next
    case (omitido fs1)
    from mkdir_bien_formado [OF Cons.prems(1) omitido(1)] show ?thesis
      by (intro Cons.IH [OF _ omitido(3)]) simp
  next
    case (falla_write e fs1 fs2)
    from write_text_bien_formado [OF mkdir_bien_formado [OF Cons.prems(1) falla_write(1)]
        falla_write(3)] falla_write(5)
    show ?thesis by simp
  next
    case (creado fs1 fs2)
    from write_text_bien_formado [OF mkdir_bien_formado [OF Cons.prems(1) creado(1)] creado(3)]
    show ?thesis by (intro Cons.IH [OF _ creado(4)]) simp
  qed
qed

lemma todos_los_prefijos:
  assumes "bien_formado fs" and "is_dir fs p"
  shows "list_all (is_dir fs) (prefixes p)"
proof -
  have "is_dir fs q" if "prefix q p" for q
  proof (cases "q = p")
    case True
    with assms(2) show ?thesis by simp
  next
    case False
    with that have sp: "strict_prefix q p" by (simp add: strict_prefix_def)
    from assms(2) have "nodos fs p \<noteq> None" by (simp add: is_dir_def)
    from bien_formado_prefijos [OF assms(1) this sp] show ?thesis by (simp add: is_dir_def)
  qed
  then show ?thesis by (simp add: list_all_iff)
qed

text \<open>
  C8: on a filesystem that is a tree, after a run that returned normally every ancestor
  directory of every entry's file exists, the destination and its own ancestors
  included. A run of a level between 1 and 5 with nothing below the destination does
  return normally, whether the destination exists or only some directory \<open>p\<close> above it
  does: \<^verbatim>\<open>write_text\<close> would raise if the directory of the file were missing, so the
  directories were made before the files. Making a directory that is there is no error.
\<close>

theorem directorios_intermedios:
  "(bien_formado fs \<and> fst (generar_estructura nivel ruta fs) = None
      \<and> rel \<in> set (rutas (get_templates nivel)) \<longrightarrow>
      list_all (is_dir (fst (snd (generar_estructura nivel ruta fs))))
        (prefixes (parent (unir ruta rel))))
   \<and> (1 \<le> nivel' \<and> nivel' \<le> 5 \<and> prefix p ruta' \<longrightarrow>
        fst (generar_estructura nivel' ruta' (disco_con p)) = None)
   \<and> (is_dir fsd q \<longrightarrow> mkdir q True True fsd = (None, fsd))"
proof (intro conjI impI)
  assume a: "bien_formado fs \<and> fst (generar_estructura nivel ruta fs) = None
      \<and> rel \<in> set (rutas (get_templates nivel))"
  obtain r s' where b: "bucle ruta (get_templates nivel) (inicial fs) = (r, s')"
    by (cases "bucle ruta (get_templates nivel) (inicial fs)")
  with a have r: "r = None" by (cases r) (simp_all add: generar_estructura_bucle)
  with b have g: "fst (snd (generar_estructura nivel ruta fs)) = disco s'"
    by (simp add: generar_estructura_bucle)
  from a have "bien_formado (disco (inicial fs))" by (simp add: inicial_def)
  from bucle_bien_formado [OF this b] have wf: "bien_formado (disco s')" .
  from a have "rel \<in> fst ` set (get_templates nivel)" by (simp add: rutas_def)
  from bucle_todo_presente [OF b [unfolded r] this]
  have "is_dir (disco s') (parent (unir ruta rel))" by simp
  from todos_los_prefijos [OF wf this]
  show "list_all (is_dir (fst (snd (generar_estructura nivel ruta fs))))
        (prefixes (parent (unir ruta rel)))"
    by (simp add: g)
next
  assume "1 \<le> nivel' \<and> nivel' \<le> 5 \<and> prefix p ruta'"
  then have "1 \<le> nivel'" "nivel' \<le> 5" "prefix p ruta'" by simp_all
  from primera_pasada [OF this] show "fst (generar_estructura nivel' ruta' (disco_con p)) = None"
    by auto
next
  assume "is_dir fsd q"
  then show "mkdir q True True fsd = (None, fsd)" by (rule mkdir_ya_existe)
qed

theorem directorios_intermedios_witness:
  "fst (generar_estructura 3 [''home'', ''D''] (disco_con [])) = None \<and>
   list_all (is_dir (fst (snd (generar_estructura 3 [''home'', ''D''] (disco_con [])))))
     [[], [''home''], [''home'', ''D''], [''home'', ''D'', ''Domain''],
      [''home'', ''D'', ''Domain'', ''entidades'']] \<and>
   mkdir [''home''] True True (disco_con [''home'']) = (None, disco_con [''home''])"
proof -
  note t = directorios_intermedios [where fs = "disco_con []" and nivel = 3
      and ruta = "[''home'', ''D'']" and rel = "''Domain/entidades/entidad.py''"
      and nivel' = 3 and ruta' = "[''home'', ''D'']" and p = "[]"
      and fsd = "disco_con [''home'']" and q = "[''home'']"]
  have h1: "bien_formado (disco_con [])" by (rule bien_formado_disco_con)
  have h2: "''Domain/entidades/entidad.py'' \<in> set (rutas (get_templates 3))"
    by code_simp
  have h3: "is_dir (disco_con [''home'']) [''home'']"
    by (simp add: is_dir_def disco_con_def)
  have h4: "prefixes (parent (unir [''home'', ''D''] ''Domain/entidades/entidad.py''))
      = [[], [''home''], [''home'', ''D''], [''home'', ''D'', ''Domain''],
         [''home'', ''D'', ''Domain'', ''entidades'']]"
    by code_simp
  from t have ok: "fst (generar_estructura 3 [''home'', ''D''] (disco_con [])) = None"
    by simp
  from t h1 h2 h3 ok show ?thesis by (simp add: h4)
qed

lemma generar_conserva:
  "nodos fs \<subseteq>\<^sub>m nodos (fst (snd (generar_estructura nivel ruta fs)))"
proof -
  obtain r s' where b: "bucle ruta (get_templates nivel) (inicial fs) = (r, s')"
    by (cases "bucle ruta (get_templates nivel) (inicial fs)")
  from bucle_conserva [OF b] have "nodos fs \<subseteq>\<^sub>m nodos (disco s')"
    by (simp add: inicial_def)
  with b show ?thesis by (cases r) (simp_all add: generar_estructura_bucle)
qed

lemma main_conserva: "nodos fs \<subseteq>\<^sub>m nodos (fst (snd (main resolver d a fs)))"
proof (cases "elegir resolver d a")
  case None
  then show ?thesis by (simp add: main_def)
next
  case (Some par)
  obtain nivel ruta where par: "par = (nivel, ruta)" by (cases par)
  show ?thesis
  proof (cases "map_of NIVELES nivel")
    case None
    with Some par show ?thesis by (simp add: main_def)
  next
    case nombre: (Some nombre)
    obtain r1 fs1 where m: "mkdir ruta True True fs = (r1, fs1)"
      by (cases "mkdir ruta True True fs")
    from mkdir_conserva [OF m] have c1: "nodos fs \<subseteq>\<^sub>m nodos fs1" by simp
    show ?thesis
    proof (cases r1)
      case (Some e)
      with \<open>elegir resolver d a = Some par\<close> par nombre m c1 show ?thesis
        by (simp add: main_def)
    next
      case None
      obtain r2 fs2 out where g: "generar_estructura nivel ruta fs1 = (r2, fs2, out)"
        by (cases "generar_estructura nivel ruta fs1")
      from generar_conserva [of fs1 nivel ruta] g have "nodos fs1 \<subseteq>\<^sub>m nodos fs2" by simp
      with c1 have "nodos fs \<subseteq>\<^sub>m nodos fs2" by (rule map_le_trans)
      with \<open>elegir resolver d a = Some par\<close> par nombre m None g show ?thesis
        by (cases r2) (simp_all add: main_def)
    qed
  qed
qed

text \<open>
  C9: \<^verbatim>\<open>main\<close> never reads \<^verbatim>\<open>args.forzar\<close>: with the flag set to any value the exit,
  the filesystem and the output are those of the same call without it. In particular
  a file that exists keeps its content when \<^verbatim>\<open>--forzar\<close> is given.
\<close>

theorem forzar_sin_efecto:
  "main resolver d (a\<lparr>forzar := b\<rparr>) fs = main resolver d a fs \<and>
   (nodos fs p = Some (Archivo c) \<longrightarrow>
      nodos (fst (snd (main resolver d (a\<lparr>forzar := True\<rparr>) fs))) p = Some (Archivo c))"
proof
  show "main resolver d (a\<lparr>forzar := b\<rparr>) fs = main resolver d a fs"
    by (simp add: main_def elegir_def)
  show "nodos fs p = Some (Archivo c) \<longrightarrow>
      nodos (fst (snd (main resolver d (a\<lparr>forzar := True\<rparr>) fs))) p = Some (Archivo c)"
    using main_conserva [of fs resolver d "a\<lparr>forzar := True\<rparr>"]
    by (auto intro: conserva_nodo)
qed

theorem forzar_sin_efecto_witness:
  "main componentes Cancelado \<lparr>arg_nivel = Some 1, arg_ruta = Some ''D'', forzar = True\<rparr>
      ((disco_con [''D''])\<lparr>nodos := (nodos (disco_con [''D'']))
          ([''D'', ''proyecto.py''] \<mapsto> Archivo (Texto ''mio''))\<rparr>)
   = main componentes Cancelado \<lparr>arg_nivel = Some 1, arg_ruta = Some ''D'', forzar = False\<rparr>
      ((disco_con [''D''])\<lparr>nodos := (nodos (disco_con [''D'']))
          ([''D'', ''proyecto.py''] \<mapsto> Archivo (Texto ''mio''))\<rparr>) \<and>
   nodos (fst (snd (main componentes Cancelado
      \<lparr>arg_nivel = Some 1, arg_ruta = Some ''D'', forzar = True\<rparr>
      ((disco_con [''D''])\<lparr>nodos := (nodos (disco_con [''D'']))
          ([''D'', ''proyecto.py''] \<mapsto> Archivo (Texto ''mio''))\<rparr>))))
     [''D'', ''proyecto.py''] = Some (Archivo (Texto ''mio'')) \<and>
   Msg_omitido ''proyecto.py'' \<in> set (snd (snd (main componentes Cancelado
      \<lparr>arg_nivel = Some 1, arg_ruta = Some ''D'', forzar = True\<rparr>
      ((disco_con [''D''])\<lparr>nodos := (nodos (disco_con [''D'']))
          ([''D'', ''proyecto.py''] \<mapsto> Archivo (Texto ''mio''))\<rparr>))))"
proof -
  have h: "Msg_omitido ''proyecto.py'' \<in> set (snd (snd (main componentes Cancelado
      \<lparr>arg_nivel = Some 1, arg_ruta = Some ''D'', forzar = True\<rparr>
      ((disco_con [''D''])\<lparr>nodos := (nodos (disco_con [''D'']))
          ([''D'', ''proyecto.py''] \<mapsto> Archivo (Texto ''mio''))\<rparr>))))"
    by code_simp
  note t = forzar_sin_efecto [where resolver = componentes and d = Cancelado
      and a = "\<lparr>arg_nivel = Some 1, arg_ruta = Some ''D'', forzar = False\<rparr>"
      and b = True
      and fs = "(disco_con [''D''])\<lparr>nodos := (nodos (disco_con [''D'']))
          ([''D'', ''proyecto.py''] \<mapsto> Archivo (Texto ''mio''))\<rparr>"
      and p = "[''D'', ''proyecto.py'']" and c = "Texto ''mio''"]
  from t [THEN conjunct1] have 1:
    "main componentes Cancelado \<lparr>arg_nivel = Some 1, arg_ruta = Some ''D'', forzar = True\<rparr>
      ((disco_con [''D''])\<lparr>nodos := (nodos (disco_con [''D'']))
          ([''D'', ''proyecto.py''] \<mapsto> Archivo (Texto ''mio''))\<rparr>)
   = main componentes Cancelado \<lparr>arg_nivel = Some 1, arg_ruta = Some ''D'', forzar = False\<rparr>
      ((disco_con [''D''])\<lparr>nodos := (nodos (disco_con [''D'']))
          ([''D'', ''proyecto.py''] \<mapsto> Archivo (Texto ''mio''))\<rparr>)"
    by simp
  from t [THEN conjunct2] have 2:
    "nodos (fst (snd (main componentes Cancelado
      \<lparr>arg_nivel = Some 1, arg_ruta = Some ''D'', forzar = True\<rparr>
      ((disco_con [''D''])\<lparr>nodos := (nodos (disco_con [''D'']))
          ([''D'', ''proyecto.py''] \<mapsto> Archivo (Texto ''mio''))\<rparr>))))
     [''D'', ''proyecto.py''] = Some (Archivo (Texto ''mio''))"
    by simp
  show ?thesis by (rule conjI [OF 1 conjI [OF 2 h]])
qed

section \<open>Failing runs and files that exist\<close>




text \<open>
  C3: a file that exists at the place of a template entry keeps its content, whatever
  the run does afterwards; no line reports it as created, and a run that returns
  normally reports it as skipped and counts it in the total of skipped files.
\<close>

theorem archivo_existente_intacto:
  assumes "rel \<in> set (rutas (get_templates nivel))"
    and "nodos fs (unir ruta rel) = Some (Archivo c0)"
  shows "nodos (fst (snd (generar_estructura nivel ruta fs))) (unir ruta rel) = Some (Archivo c0)
    \<and> Msg_creado rel \<notin> set (snd (snd (generar_estructura nivel ruta fs)))
    \<and> (fst (generar_estructura nivel ruta fs) = None \<longrightarrow>
         Msg_omitido rel \<in> set (snd (snd (generar_estructura nivel ruta fs)))
         \<and> (\<exists>k>0. Msg_total_omitidos k \<in> set (snd (snd (generar_estructura nivel ruta fs)))))"
proof -
  obtain r s' where b: "bucle ruta (get_templates nivel) (inicial fs) = (r, s')"
    by (cases "bucle ruta (get_templates nivel) (inicial fs)")
  have ex: "exists (disco (inicial fs)) (unir ruta rel)"
    using assms(2) by (simp add: exists_def inicial_def)
  have disco: "fst (snd (generar_estructura nivel ruta fs)) = disco s'"
    using b by (cases r) (simp_all add: generar_estructura_bucle)
  have sal: "snd (snd (generar_estructura nivel ruta fs))
      = salida s' @ (if r = None then resumen s' else [])"
    using b by (cases r) (simp_all add: generar_estructura_bucle)
  have 1: "nodos (disco s') (unir ruta rel) = Some (Archivo c0)"
    using bucle_conserva [OF b] assms(2) by (auto simp: inicial_def intro: conserva_nodo)
  have "Msg_creado rel \<notin> set (salida s')"
    using bucle_no_crea_existente [OF b ex] by (auto simp: inicial_def)
  then have 2: "Msg_creado rel \<notin> set (salida s' @ (if r = None then resumen s' else []))"
    by (simp add: resumen_def)
  have 3: "Msg_omitido rel \<in> set (salida s') \<and> Msg_total_omitidos (omitidos s') \<in> set (resumen s')
      \<and> 0 < omitidos s'" if "r = None"
  proof -
    from assms(1) have "rel \<in> fst ` set (get_templates nivel)" by (simp add: rutas_def)
    from bucle_omite_existente [OF b [unfolded that] this ex]
    have m: "Msg_omitido rel \<in> set (salida s')" .
    from bucle_salida [OF b] have "omitidos s' = length (filter es_omitido (salida s'))"
      by (auto simp: inicial_def)
    moreover from m have "filter es_omitido (salida s') \<noteq> []"
      by (auto simp: filter_empty_conv intro: bexI [of _ "Msg_omitido rel"])
    ultimately have "0 < omitidos s'" by simp
    with m show ?thesis by (simp add: resumen_def)
  qed
  have "fst (generar_estructura nivel ruta fs) = r"
    using b by (cases r) (simp_all add: generar_estructura_bucle)
  with 1 2 3 disco sal show ?thesis by auto
qed

theorem archivo_existente_intacto_witness:
  "''Domain/entidades/entidad.py'' \<in> set (rutas (get_templates 3)) \<and>
   nodos ((disco_con [''D'', ''Domain'', ''entidades''])\<lparr>nodos :=
       (nodos (disco_con [''D'', ''Domain'', ''entidades'']))
         ([''D'', ''Domain'', ''entidades'', ''entidad.py''] \<mapsto> Archivo (Texto ''editado''))\<rparr>)
     (unir [''D''] ''Domain/entidades/entidad.py'') = Some (Archivo (Texto ''editado'')) \<and>
   nodos (fst (snd (generar_estructura 3 [''D'']
       ((disco_con [''D'', ''Domain'', ''entidades''])\<lparr>nodos :=
          (nodos (disco_con [''D'', ''Domain'', ''entidades'']))
            ([''D'', ''Domain'', ''entidades'', ''entidad.py''] \<mapsto> Archivo (Texto ''editado''))\<rparr>))))
     (unir [''D''] ''Domain/entidades/entidad.py'') = Some (Archivo (Texto ''editado'')) \<and>
   Msg_omitido ''Domain/entidades/entidad.py'' \<in> set (snd (snd (generar_estructura 3 [''D'']
       ((disco_con [''D'', ''Domain'', ''entidades''])\<lparr>nodos :=
          (nodos (disco_con [''D'', ''Domain'', ''entidades'']))
            ([''D'', ''Domain'', ''entidades'', ''entidad.py''] \<mapsto> Archivo (Texto ''editado''))\<rparr>))))"
proof -
  have h1: "''Domain/entidades/entidad.py'' \<in> set (rutas (get_templates 3))"
    by code_simp
  have h2: "nodos ((disco_con [''D'', ''Domain'', ''entidades''])\<lparr>nodos :=
       (nodos (disco_con [''D'', ''Domain'', ''entidades'']))
         ([''D'', ''Domain'', ''entidades'', ''entidad.py''] \<mapsto> Archivo (Texto ''editado''))\<rparr>)
     (unir [''D''] ''Domain/entidades/entidad.py'') = Some (Archivo (Texto ''editado''))"
    by code_simp
  have h3: "fst (generar_estructura 3 [''D'']
       ((disco_con [''D'', ''Domain'', ''entidades''])\<lparr>nodos :=
          (nodos (disco_con [''D'', ''Domain'', ''entidades'']))
            ([''D'', ''Domain'', ''entidades'', ''entidad.py''] \<mapsto> Archivo (Texto ''editado''))\<rparr>))
      = None"
    by code_simp
  from archivo_existente_intacto [OF h1 h2] h1 h2 h3 show ?thesis by simp
qed

text \<open>
  C7: the registry is a function of the level alone: it reads neither the filesystem nor
  any other state and has no failing branch. Two resolutions of one level therefore give
  the same paths in the same order with the same contents, and the keys of the result
  are pairwise different. A caller observes the same: whatever the destination and the
  state of the filesystem, the file lines of a run that returns name the paths of the
  registry, in the order of the registry.
\<close>

theorem get_templates_determinista:
  assumes "t1 = get_templates nivel" and "t2 = get_templates nivel"
  shows "rutas t1 = rutas t2 \<and> map snd t1 = map snd t2 \<and> items t1 = items t2
    \<and> distinct (rutas t1)
    \<and> (fst (generar_estructura nivel ruta fs) = None \<longrightarrow>
         map ruta_linea (filter es_linea_archivo (snd (snd (generar_estructura nivel ruta fs))))
           = rutas t1)"
proof -
  have "map ruta_linea (filter es_linea_archivo (snd (snd (generar_estructura nivel ruta fs))))
      = rutas (get_templates nivel)"
    if ok: "fst (generar_estructura nivel ruta fs) = None"
  proof -
    obtain r s' where b: "bucle ruta (get_templates nivel) (inicial fs) = (r, s')"
      by (cases "bucle ruta (get_templates nivel) (inicial fs)")
    with ok have r: "r = None" by (cases r) (simp_all add: generar_estructura_bucle)
    from bucle_salida [OF b] r obtain ms where
      ms: "salida s' = ms" "list_all es_linea_archivo ms"
        "map ruta_linea ms = take (length ms) (map fst (get_templates nivel))"
        "length ms = length (get_templates nivel)"
      by (auto simp: inicial_def)
    from ms(2) have "filter es_linea_archivo ms = ms"
      by (simp add: list_all_iff filter_id_conv)
    moreover have "filter es_linea_archivo (resumen s') = []"
      by (simp add: resumen_def)
    ultimately have "filter es_linea_archivo (salida s' @ resumen s') = ms"
      using ms(1) by simp
    with b r ms(3,4) show ?thesis
      by (simp add: generar_estructura_bucle rutas_def)
  qed
  with assms get_templates_distinct [of nivel] show ?thesis by simp
qed

theorem get_templates_determinista_witness:
  "rutas (get_templates 2) = [''backend.py'', ''frontend.py''] \<and>
   map snd (get_templates 2) = [Cuerpo Inline_backend, Cuerpo Inline_frontend] \<and>
   distinct (rutas (get_templates 2)) \<and>
   map ruta_linea (filter es_linea_archivo
       (snd (snd (generar_estructura 2 [''D''] (disco_con [''D''])))))
     = [''backend.py'', ''frontend.py'']"
proof -
  have h: "fst (generar_estructura 2 [''D''] (disco_con [''D''])) = None"
    by code_simp
  from get_templates_determinista [where ?t1.0 = "get_templates 2" and nivel = 2
      and ?t2.0 = "get_templates 2" and ruta = "[''D'']" and fs = "disco_con [''D'']"] h
  show ?thesis by (simp add: get_templates_2 rutas_def)
qed

end
